theory Spec2Isabelle
  imports Complex_Main "HOL-Library.AList"
begin

section \<open>Python values, errors and dictionaries\<close>

text \<open>
  A double is a real number or one of the three special values.  Rounding, overflow of
  finite results and the sign of zero are not represented: \<open>Fin\<close> carries the exact real.
\<close>

datatype npfloat = Fin real | PInf | NInf | NaN

text \<open>A numpy array: its shape and its elements in row-major order.\<close>

record ndarray =
  shape :: "nat list"
  data :: "npfloat list"

text \<open>
  The Python objects that travel through a frame.  \<open>VFloat\<close> is a built-in Python float,
  \<open>VNpFloat\<close> a numpy scalar (what a reduction of an array returns), \<open>VObj\<close> any other
  object (an image, a string representation), named.
\<close>

datatype val =
    VNone
  | VInt int
  | VFloat npfloat
  | VNpFloat npfloat
  | VStr string
  | VArray ndarray
  | VList "val list"
  | VTuple "val list"
  | VDict "(string \<times> val) list"
  | VObj string

datatype error =
    KeyError string
  | TypeError
  | ValueError
  | IndexError
  | ZeroDivisionError
  | StructError
  | AttributeError string
  | Raised string

text \<open>
  A dict keeps its keys in insertion order; assigning to an existing key keeps the key's
  place, assigning to a new key appends it.  That is \<open>AList.update\<close>.
\<close>

type_synonym dict = "(string \<times> val) list"

definition dict_getitem :: "dict \<Rightarrow> string \<Rightarrow> error + val" where
  "dict_getitem d k = (case map_of d k of None \<Rightarrow> Inl (KeyError k) | Some v \<Rightarrow> Inr v)"

definition dict_get :: "dict \<Rightarrow> string \<Rightarrow> val \<Rightarrow> val" where
  "dict_get d k dflt = (case map_of d k of None \<Rightarrow> dflt | Some v \<Rightarrow> v)"

definition dict_setitem :: "dict \<Rightarrow> string \<Rightarrow> val \<Rightarrow> dict" where
  "dict_setitem d k v = AList.update k v d"

fun dict_update :: "dict \<Rightarrow> (string \<times> val) list \<Rightarrow> dict" where
  "dict_update d [] = d"
| "dict_update d ((k, v) # ps) = dict_update (dict_setitem d k v) ps"

definition dict_of_pairs :: "(string \<times> val) list \<Rightarrow> dict" where
  "dict_of_pairs ps = dict_update [] ps"

text \<open>Dict objects live in a store; a variable holds the address of one.\<close>

type_synonym addr = nat
type_synonym heap = "addr \<Rightarrow> dict"

section \<open>Pipeline.process\<close>

text \<open>
  A step of the pipeline is itself a dict in the source; each key that the code reads is a
  field here, \<open>None\<close> when the key is absent.  \<open>step_kwargs\<close> is the address of the
  step's keyword-argument dict, \<open>step_instance\<close> the object that \<open>build\<close> stores under
  \<open>'instance'\<close>.
\<close>

record 's step =
  step_name :: "string option"
  step_class_name :: "string option"
  step_args :: "val list option"
  step_kwargs :: "addr option"
  step_input :: "string list option"
  step_output :: "string list option"
  step_instance :: "'s option"

text \<open>\<open>struct.pack('i', x)\<close>: a 32-bit signed integer, anything else is an error.\<close>

definition struct_pack_i :: "val \<Rightarrow> error + int" where
  "struct_pack_i v =
     (case v of
        VInt i \<Rightarrow> if - (2 ^ 31) \<le> i \<and> i < 2 ^ 31 then Inr i else Inl StructError
      | _ \<Rightarrow> Inl StructError)"

text \<open>\<open>[data_dict[k] for k in step['input']]\<close>: the first absent key raises.\<close>

fun lookup_inputs :: "dict \<Rightarrow> string list \<Rightarrow> error + val list" where
  "lookup_inputs d [] = Inr []"
| "lookup_inputs d (k # ks) =
     (case dict_getitem d k of
        Inl e \<Rightarrow> Inl e
      | Inr v \<Rightarrow> (case lookup_inputs d ks of Inl e \<Rightarrow> Inl e | Inr vs \<Rightarrow> Inr (v # vs)))"

text \<open>\<open>if not isinstance(outp, (list, tuple)): outp = [outp]\<close>\<close>

definition normalize_output :: "val \<Rightarrow> val list" where
  "normalize_output outp = (case outp of VList xs \<Rightarrow> xs | VTuple xs \<Rightarrow> xs | _ \<Rightarrow> [outp])"

text \<open>\<open>d = dict(zip(step.get('output', []), outp)); data_dict.update(d)\<close>\<close>

definition store_outputs :: "string list option \<Rightarrow> val \<Rightarrow> dict \<Rightarrow> dict" where
  "store_outputs outkeys outp data_dict =
     dict_update data_dict
       (dict_of_pairs (zip (case outkeys of None \<Rightarrow> [] | Some ks \<Rightarrow> ks) (normalize_output outp)))"

text \<open>
  The loop over \<open>self.pipeline\<close>.  \<open>run\<close> is the method \<open>run\<close> of the step objects: from
  the object and the argument list to what it returns or raises, and the object after the
  call.  \<open>ref\<close> is the address of \<open>data_dict\<close>.  The result is the exception that ended
  the loop, if any, the steps with their objects as the calls left them, and the store.
\<close>

fun process_loop ::
  "('s \<Rightarrow> val list \<Rightarrow> (error + val) \<times> 's) \<Rightarrow> 's step list \<Rightarrow> heap \<Rightarrow> addr
     \<Rightarrow> error option \<times> 's step list \<times> heap" where
  "process_loop run [] h ref = (None, [], h)"
| "process_loop run (s # rest) h ref =
     (case step_input s of
        None \<Rightarrow> (Some (KeyError ''input''), s # rest, h)
      | Some ks \<Rightarrow>
          (case lookup_inputs (h ref) ks of
             Inl e \<Rightarrow> (Some e, s # rest, h)
           | Inr inputs \<Rightarrow>
               (case step_name s of
                  None \<Rightarrow> (Some (KeyError ''name''), s # rest, h)
                | Some nm \<Rightarrow>
                    (case step_instance s of
                       None \<Rightarrow> (Some (KeyError ''instance''), s # rest, h)
                     | Some obj \<Rightarrow>
                         (case run obj inputs of
                            (Inl e, obj') \<Rightarrow> (Some e, s\<lparr>step_instance := Some obj'\<rparr> # rest, h)
                          | (Inr outp, obj') \<Rightarrow>
                              (case process_loop run rest
                                      (h(ref := store_outputs (step_output s) outp (h ref))) ref of
                                 (r, rest', h') \<Rightarrow>
                                   (r, s\<lparr>step_instance := Some obj'\<rparr> # rest', h')))))))"

definition process ::
  "('s \<Rightarrow> val list \<Rightarrow> (error + val) \<times> 's) \<Rightarrow> 's step list \<Rightarrow> heap \<Rightarrow> addr
     \<Rightarrow> (error + addr) \<times> 's step list \<times> heap" where
  "process run pipeline h ref =
     (case dict_getitem (h ref) ''image_number'' of
        Inl e \<Rightarrow> (Inl e, pipeline, h)
      | Inr v \<Rightarrow>
          (case struct_pack_i v of
             Inl e \<Rightarrow> (Inl e, pipeline, h)
           | Inr image_number \<Rightarrow>
               (case process_loop run pipeline h ref of
                  (Some e, pipeline', h') \<Rightarrow> (Inl e, pipeline', h')
                | (None, pipeline', h') \<Rightarrow> (Inr ref, pipeline', h'))))"

section \<open>Pipeline.build and the constructor\<close>

text \<open>
  \<open>for k, v in global_parameters.items(): kwargs[k] = kwargs.get(k, v)\<close>, over the items
  of the global parameters as they are when the loop starts.  (When \<open>kwargs\<close> is the very
  dict being iterated, every assignment stores the value the key already has, so the
  items seen by the iteration are these as well.)
\<close>

fun merge_global :: "dict \<Rightarrow> (string \<times> val) list \<Rightarrow> dict" where
  "merge_global kwargs [] = kwargs"
| "merge_global kwargs ((k, v) # items) =
     merge_global (dict_setitem kwargs k (dict_get kwargs k v)) items"

text \<open>
  The body of the two loops of \<open>build\<close>.  A step with a \<open>'kwargs'\<close> entry has its dict
  updated in the store; a step without one gets a fresh dict that nothing else refers to.
  \<open>ctor\<close> stands for \<open>pipeline_utils.load_class(class_name)(*args, **kwargs)\<close>: the
  class loader is not part of the sources, and what a constructor does with its arguments
  is the class's business, so both are a parameter.  A call with \<open>**kwargs\<close> hands the
  callee a copy, so the constructor cannot change the dict in the store.
\<close>

definition build_step ::
  "(string \<Rightarrow> val list \<Rightarrow> dict \<Rightarrow> error + 's) \<Rightarrow> addr \<Rightarrow> 's step \<Rightarrow> heap
     \<Rightarrow> (error + 's step) \<times> heap" where
  "build_step ctor gp s h =
     (case step_name s of
        None \<Rightarrow> (Inl (KeyError ''name''), h)
      | Some nm \<Rightarrow>
          (let args = (case step_args s of None \<Rightarrow> [] | Some a \<Rightarrow> a);
               h1 = (case step_kwargs s of
                       None \<Rightarrow> h
                     | Some a \<Rightarrow> h(a := merge_global (h a) (h gp)));
               kwargs = (case step_kwargs s of
                           None \<Rightarrow> merge_global [] (h gp)
                         | Some a \<Rightarrow> h1 a)
           in (case step_class_name s of
                 None \<Rightarrow> (Inl (KeyError ''class_name''), h1)
               | Some cn \<Rightarrow>
                   (case ctor cn args kwargs of
                      Inl e \<Rightarrow> (Inl e, h1)
                    | Inr obj \<Rightarrow> (Inr (s\<lparr>step_instance := Some obj\<rparr>), h1)))))"

text \<open>
  One loop of \<open>build\<close>; \<open>acc\<close> is the attribute that the loop appends to
  (\<open>self.static_pipeline\<close> or \<open>self.pipeline\<close>), returned as it is when the loop ends or
  an exception leaves it.
\<close>

fun build_steps ::
  "(string \<Rightarrow> val list \<Rightarrow> dict \<Rightarrow> error + 's) \<Rightarrow> addr \<Rightarrow> 's step list \<Rightarrow> 's step list
     \<Rightarrow> heap \<Rightarrow> error option \<times> 's step list \<times> heap" where
  "build_steps ctor gp [] acc h = (None, acc, h)"
| "build_steps ctor gp (s # ss) acc h =
     (case build_step ctor gp s h of
        (Inl e, h1) \<Rightarrow> (Some e, acc, h1)
      | (Inr s', h1) \<Rightarrow> build_steps ctor gp ss (acc @ [s']) h1)"

text \<open>The attributes of a \<open>Pipeline\<close> object; \<open>None\<close> is an attribute not yet assigned.\<close>

record 's pipeline_obj =
  self_recording_id :: string
  self_static_pipeline :: "'s step list option"
  self_pipeline :: "'s step list option"
  self_global_parameters :: "addr option"
  self_key :: "string option"

definition build ::
  "(string \<Rightarrow> val list \<Rightarrow> dict \<Rightarrow> error + 's) \<Rightarrow> 's pipeline_obj \<Rightarrow> 's step list
     \<Rightarrow> 's step list \<Rightarrow> addr \<Rightarrow> heap \<Rightarrow> error option \<times> 's pipeline_obj \<times> heap" where
  "build ctor self pipeline static_pipeline gp h =
     (case build_steps ctor gp static_pipeline [] h of
        (Some e, built, h1) \<Rightarrow> (Some e, self\<lparr>self_static_pipeline := Some built\<rparr>, h1)
      | (None, built, h1) \<Rightarrow>
          (case build_steps ctor gp pipeline [] h1 of
             (Some e, built2, h2) \<Rightarrow>
               (Some e,
                self\<lparr>self_static_pipeline := Some built, self_pipeline := Some built2\<rparr>, h2)
           | (None, built2, h2) \<Rightarrow>
               (None,
                self\<lparr>self_static_pipeline := Some built, self_pipeline := Some built2,
                     self_global_parameters := Some gp\<rparr>, h2)))"

text \<open>
  \<open>register\<close> writes the steps' parameters to the external database, which is not
  represented, and records the key of the pipeline; \<open>oid\<close> is \<open>id(self)\<close> as text.
\<close>

definition register :: "string \<Rightarrow> 's pipeline_obj \<Rightarrow> 's pipeline_obj" where
  "register oid self = self\<lparr>self_key := Some (''pipeline:'' @ oid)\<rparr>"

text \<open>
  \<open>Pipeline(pipeline, global_parameters, static_pipeline, recording_id)\<close>: the new object,
  or the exception that left \<open>__init__\<close>, in which case the caller holds no object.
  \<open>now\<close> is the formatted time of the call.
\<close>

definition Pipeline_init ::
  "(string \<Rightarrow> val list \<Rightarrow> dict \<Rightarrow> error + 's) \<Rightarrow> string \<Rightarrow> string \<Rightarrow> 's step list \<Rightarrow> addr
     \<Rightarrow> 's step list \<Rightarrow> string option \<Rightarrow> heap \<Rightarrow> (error + 's pipeline_obj) \<times> heap" where
  "Pipeline_init ctor now oid pipeline gp static_pipeline recording_id h =
     (let rid = (case recording_id of None \<Rightarrow> ''recording_'' @ now | Some r \<Rightarrow> r);
          self = \<lparr>self_recording_id = rid, self_static_pipeline = None, self_pipeline = None,
                  self_global_parameters = None, self_key = None\<rparr>
      in (case build ctor self pipeline static_pipeline gp h of
            (Some e, self', h') \<Rightarrow> (Inl e, h')
          | (None, self', h') \<Rightarrow> (Inr (register oid self'), h')))"

text \<open>
  What \<open>build\<close> keeps true of the store, \<open>h0\<close> being the store it started from: the
  global parameters are as they were, and every dict is as it was or has had the global
  parameters merged into it.
\<close>

definition merged_store :: "heap \<Rightarrow> addr \<Rightarrow> heap \<Rightarrow> bool" where
  "merged_store h0 gp h =
     (h gp = h0 gp \<and> (\<forall>a. h a = h0 a \<or> h a = merge_global (h0 a) (h0 gp)))"

section \<open>Arithmetic of doubles and arrays\<close>

fun np_neg :: "npfloat \<Rightarrow> npfloat" where
  "np_neg (Fin a) = Fin (- a)"
| "np_neg PInf = NInf"
| "np_neg NInf = PInf"
| "np_neg NaN = NaN"

fun np_add :: "npfloat \<Rightarrow> npfloat \<Rightarrow> npfloat" where
  "np_add (Fin a) (Fin b) = Fin (a + b)"
| "np_add NaN y = NaN"
| "np_add x NaN = NaN"
| "np_add PInf NInf = NaN"
| "np_add NInf PInf = NaN"
| "np_add PInf y = PInf"
| "np_add x PInf = PInf"
| "np_add NInf y = NInf"
| "np_add x NInf = NInf"

definition np_sub :: "npfloat \<Rightarrow> npfloat \<Rightarrow> npfloat" where
  "np_sub x y = np_add x (np_neg y)"

text \<open>An infinity of the given sign (\<open>True\<close> for positive) times or over a finite number.\<close>

definition inf_signed :: "bool \<Rightarrow> npfloat" where
  "inf_signed pos = (if pos then PInf else NInf)"

fun np_mul :: "npfloat \<Rightarrow> npfloat \<Rightarrow> npfloat" where
  "np_mul (Fin a) (Fin b) = Fin (a * b)"
| "np_mul NaN y = NaN"
| "np_mul x NaN = NaN"
| "np_mul (Fin a) PInf = (if a = 0 then NaN else inf_signed (0 < a))"
| "np_mul (Fin a) NInf = (if a = 0 then NaN else inf_signed (a < 0))"
| "np_mul PInf (Fin b) = (if b = 0 then NaN else inf_signed (0 < b))"
| "np_mul NInf (Fin b) = (if b = 0 then NaN else inf_signed (b < 0))"
| "np_mul PInf PInf = PInf"
| "np_mul PInf NInf = NInf"
| "np_mul NInf PInf = NInf"
| "np_mul NInf NInf = PInf"

text \<open>
  Division never raises: a finite number over zero is an infinity, or not-a-number for
  zero over zero.
\<close>

fun np_div :: "npfloat \<Rightarrow> npfloat \<Rightarrow> npfloat" where
  "np_div (Fin a) (Fin b) =
     (if b = 0 then (if a = 0 then NaN else inf_signed (0 < a)) else Fin (a / b))"
| "np_div NaN y = NaN"
| "np_div x NaN = NaN"
| "np_div (Fin a) PInf = Fin 0"
| "np_div (Fin a) NInf = Fin 0"
| "np_div PInf (Fin b) = inf_signed (0 \<le> b)"
| "np_div NInf (Fin b) = inf_signed (b < 0)"
| "np_div PInf PInf = NaN"
| "np_div PInf NInf = NaN"
| "np_div NInf PInf = NaN"
| "np_div NInf NInf = NaN"

fun np_sqrt :: "npfloat \<Rightarrow> npfloat" where
  "np_sqrt (Fin a) = (if a < 0 then NaN else Fin (sqrt a))"
| "np_sqrt PInf = PInf"
| "np_sqrt NInf = NaN"
| "np_sqrt NaN = NaN"

fun is_finite :: "npfloat \<Rightarrow> bool" where
  "is_finite (Fin a) = True"
| "is_finite x = False"

definition np_sum :: "npfloat list \<Rightarrow> npfloat" where
  "np_sum xs = foldl np_add (Fin 0) xs"

text \<open>\<open>np.mean\<close> and \<open>np.std\<close> of a vector: the sum over the count, and the root of the
  mean squared deviation from the mean (the population standard deviation).\<close>

definition np_mean :: "npfloat list \<Rightarrow> npfloat" where
  "np_mean xs = np_div (np_sum xs) (Fin (real (length xs)))"

definition np_std :: "npfloat list \<Rightarrow> npfloat" where
  "np_std xs =
     (let m = np_mean xs
      in np_sqrt (np_mean (map (\<lambda>x. np_mul (np_sub x m) (np_sub x m)) xs)))"

text \<open>\<open>np.nanmean\<close> and \<open>np.nanstd\<close>: the same over the entries that are not not-a-number.\<close>

definition np_nanmean :: "npfloat list \<Rightarrow> npfloat" where
  "np_nanmean xs = np_mean (filter (\<lambda>x. x \<noteq> NaN) xs)"

definition np_nanstd :: "npfloat list \<Rightarrow> npfloat" where
  "np_nanstd xs = np_std (filter (\<lambda>x. x \<noteq> NaN) xs)"

text \<open>A reduction along axis 0 of a matrix given by its rows, all of length \<open>w\<close>.\<close>

definition axis0 :: "(npfloat list \<Rightarrow> npfloat) \<Rightarrow> nat \<Rightarrow> npfloat list list \<Rightarrow> npfloat list" where
  "axis0 f w rows = map (\<lambda>j. f (map (\<lambda>r. r ! j) rows)) [0..<w]"

definition np_size :: "ndarray \<Rightarrow> nat" where
  "np_size a = prod_list (shape a)"

definition wf_array :: "ndarray \<Rightarrow> bool" where
  "wf_array a = (length (data a) = prod_list (shape a))"

definition vector :: "npfloat list \<Rightarrow> ndarray" where
  "vector xs = \<lparr>shape = [length xs], data = xs\<rparr>"

definition np_zeros_like :: "ndarray \<Rightarrow> ndarray" where
  "np_zeros_like a = \<lparr>shape = shape a, data = replicate (np_size a) (Fin 0)\<rparr>"

definition np_reshape :: "npfloat list \<Rightarrow> nat list \<Rightarrow> error + ndarray" where
  "np_reshape xs shp =
     (if prod_list shp = length xs then Inr \<lparr>shape = shp, data = xs\<rparr> else Inl ValueError)"

text \<open>
  Broadcasting of two shapes, aligned at their last dimensions: equal extents stay, an
  extent of 1 stretches, anything else is an error.  \<open>broadcast_dims\<close> works on the
  reversed shapes.
\<close>

fun broadcast_dims :: "nat list \<Rightarrow> nat list \<Rightarrow> nat list option" where
  "broadcast_dims [] ys = Some ys"
| "broadcast_dims xs [] = Some xs"
| "broadcast_dims (x # xs) (y # ys) =
     (if x = y \<or> y = 1 then map_option ((#) x) (broadcast_dims xs ys)
      else if x = 1 then map_option ((#) y) (broadcast_dims xs ys)
      else None)"

definition broadcast_shapes :: "nat list \<Rightarrow> nat list \<Rightarrow> nat list option" where
  "broadcast_shapes s t = map_option rev (broadcast_dims (rev s) (rev t))"

text \<open>The elements of an array of shape \<open>ds\<close> stretched to the shape \<open>ts\<close> of equal rank.\<close>

fun expand :: "nat list \<Rightarrow> nat list \<Rightarrow> 'a list \<Rightarrow> 'a list" where
  "expand (d # ds) (t # ts) xs =
     (if d = t
      then concat (map (\<lambda>i. expand ds ts (take (prod_list ds) (drop (i * prod_list ds) xs)))
                     [0..<t])
      else concat (replicate t (expand ds ts xs)))"
| "expand ds ts xs = xs"

definition broadcast_to :: "ndarray \<Rightarrow> nat list \<Rightarrow> npfloat list" where
  "broadcast_to a t = expand (replicate (length t - length (shape a)) 1 @ shape a) t (data a)"

definition np_binop ::
  "(npfloat \<Rightarrow> npfloat \<Rightarrow> npfloat) \<Rightarrow> ndarray \<Rightarrow> ndarray \<Rightarrow> error + ndarray" where
  "np_binop f a b =
     (case broadcast_shapes (shape a) (shape b) of
        None \<Rightarrow> Inl ValueError
      | Some t \<Rightarrow> Inr \<lparr>shape = t, data = map2 f (broadcast_to a t) (broadcast_to b t)\<rparr>)"

section \<open>The steps\<close>

subsection \<open>ActivityRatio\<close>

fun as_float :: "val \<Rightarrow> npfloat option" where
  "as_float (VInt i) = Some (Fin (real_of_int i))"
| "as_float (VFloat x) = Some x"
| "as_float (VNpFloat x) = Some x"
| "as_float v = None"

fun is_numpy :: "val \<Rightarrow> bool" where
  "is_numpy (VNpFloat x) = True"
| "is_numpy v = False"

text \<open>\<open>if isinstance(x, np.ndarray): x = np.nanmean(x)\<close>\<close>

definition reduce_array :: "val \<Rightarrow> val" where
  "reduce_array x = (case x of VArray a \<Rightarrow> VNpFloat (np_nanmean (data a)) | _ \<Rightarrow> x)"

text \<open>
  \<open>x1 / (x1 + x2)\<close>.  As soon as one operand is a numpy scalar the arithmetic is numpy's
  and a zero divisor gives an infinity or not-a-number; between two built-in Python
  numbers a zero divisor raises \<open>ZeroDivisionError\<close>.  Operands that are no numbers end in
  a \<open>TypeError\<close>.
\<close>

definition ActivityRatio_run :: "val \<Rightarrow> val \<Rightarrow> error + val" where
  "ActivityRatio_run x1 x2 =
     (let y1 = reduce_array x1; y2 = reduce_array x2
      in (case (as_float y1, as_float y2) of
            (Some a, Some b) \<Rightarrow>
              (if is_numpy y1 \<or> is_numpy y2 then Inr (VNpFloat (np_div a (np_add a b)))
               else if np_add a b = Fin 0 then Inl ZeroDivisionError
               else Inr (VFloat (np_div a (np_add a b))))
          | _ \<Rightarrow> Inl TypeError))"

subsection \<open>IncrementalMeanStd\<close>

text \<open>
  Modelled from the spec: the class \<open>BufferedArray\<close> of the module \<open>buffered_array\<close>,
  which is not among the sources.  It is an append-only sequence of flat vectors in
  arrival order; \<open>append\<close> stores a vector, \<open>get_array\<close> returns all stored vectors
  stacked.  It is created for vectors of one size; a vector of another size does not fit
  a row of the stack and is refused.
\<close>

record BufferedArray =
  buf_size :: nat
  buf_rows :: "npfloat list list"

definition BufferedArray_init :: "nat \<Rightarrow> BufferedArray" where
  "BufferedArray_init sz = \<lparr>buf_size = sz, buf_rows = []\<rparr>"

definition BufferedArray_append :: "BufferedArray \<Rightarrow> npfloat list \<Rightarrow> error + BufferedArray" where
  "BufferedArray_append b x =
     (if length x = buf_size b then Inr (b\<lparr>buf_rows := buf_rows b @ [x]\<rparr>) else Inl ValueError)"

definition BufferedArray_get_array :: "BufferedArray \<Rightarrow> npfloat list list" where
  "BufferedArray_get_array b = buf_rows b"

text \<open>The attributes \<open>array_shape\<close> and \<open>data\<close>; \<open>hasattr(self, 'data')\<close> is
  \<open>ims_data self \<noteq> None\<close>.\<close>

record ims =
  ims_array_shape :: "nat list option"
  ims_data :: "BufferedArray option"

definition IncrementalMeanStd_init :: ims where
  "IncrementalMeanStd_init = \<lparr>ims_array_shape = None, ims_data = None\<rparr>"

definition IncrementalMeanStd_run :: "ims \<Rightarrow> ndarray \<Rightarrow> (error + val) \<times> ims" where
  "IncrementalMeanStd_run self array =
     (case ims_data self of
        None \<Rightarrow>
          (let self1 = self\<lparr>ims_array_shape := Some (shape array),
                            ims_data := Some (BufferedArray_init (np_size array))\<rparr>
           in (case BufferedArray_append (BufferedArray_init (np_size array)) (data array) of
                 Inl e \<Rightarrow> (Inl e, self1)
               | Inr b \<Rightarrow> (Inr (VTuple [VNone, VNone]), self1\<lparr>ims_data := Some b\<rparr>)))
      | Some b0 \<Rightarrow>
          (case BufferedArray_append b0 (data array) of
             Inl e \<Rightarrow> (Inl e, self)
           | Inr b \<Rightarrow>
               (let self1 = self\<lparr>ims_data := Some b\<rparr>;
                    std = axis0 np_std (buf_size b) (BufferedArray_get_array b);
                    mean = axis0 np_mean (buf_size b) (BufferedArray_get_array b)
                in (case ims_array_shape self of
                      None \<Rightarrow> (Inl (AttributeError ''array_shape''), self1)
                    | Some shp \<Rightarrow>
                        (case np_reshape mean shp of
                           Inl e \<Rightarrow> (Inl e, self1)
                         | Inr m \<Rightarrow>
                             (case np_reshape std shp of
                                Inl e \<Rightarrow> (Inl e, self1)
                              | Inr sd \<Rightarrow> (Inr (VTuple [VArray m, VArray sd]), self1)))))))"

definition IncrementalMeanStd_reset :: "ims \<Rightarrow> error + ims" where
  "IncrementalMeanStd_reset self =
     (case ims_data self of
        None \<Rightarrow> Inl (AttributeError ''data'')
      | Some b \<Rightarrow> Inr (self\<lparr>ims_data := None\<rparr>))"

text \<open>The object fed a sequence of arrays, one call each: what the calls returned, in
  order, and the object after the last.\<close>

fun IncrementalMeanStd_runs :: "ims \<Rightarrow> ndarray list \<Rightarrow> (error + val) list \<times> ims" where
  "IncrementalMeanStd_runs self [] = ([], self)"
| "IncrementalMeanStd_runs self (a # as) =
     (case IncrementalMeanStd_run self a of
        (r, self1) \<Rightarrow>
          (case IncrementalMeanStd_runs self1 as of (rs, self2) \<Rightarrow> (r # rs, self2)))"

subsection \<open>RunningMeanStd\<close>

text \<open>
  The window \<open>samples\<close> is a matrix of \<open>n\<close> rows, kept as the list of its rows; the input
  is a vector.  \<open>rms_std\<close> is assigned by the first call that passes the skip test.
\<close>

record rms =
  rms_n :: int
  rms_n_skip :: int
  rms_mean :: "npfloat list option"
  rms_std :: "npfloat list option"
  rms_samples :: "npfloat list list option"

definition RunningMeanStd_init :: "int \<Rightarrow> int \<Rightarrow> rms" where
  "RunningMeanStd_init n n_skip =
     \<lparr>rms_n = n, rms_n_skip = n_skip, rms_mean = None, rms_std = None, rms_samples = None\<rparr>"

text \<open>\<open>np.empty((n, size)) * np.nan\<close>\<close>

definition nan_window :: "int \<Rightarrow> nat \<Rightarrow> error + npfloat list list" where
  "nan_window n sz = (if n < 0 then Inl ValueError else Inr (replicate (nat n) (replicate sz NaN)))"

text \<open>\<open>samples[:-1, :] = samples[1:, :]\<close>: every row but the last takes the next one.\<close>

definition shift_window :: "npfloat list list \<Rightarrow> npfloat list list" where
  "shift_window w = (if w = [] then [] else tl w @ [last w])"

text \<open>\<open>samples[-1, :] = inp\<close>: there must be a last row; a vector of the row's length is
  stored, a vector of length 1 is stretched, any other length is an error.\<close>

definition set_last_row :: "npfloat list list \<Rightarrow> npfloat list \<Rightarrow> error + npfloat list list" where
  "set_last_row w inp =
     (if w = [] then Inl IndexError
      else if length inp = length (last w) then Inr (butlast w @ [inp])
      else if length inp = 1 then Inr (butlast w @ [replicate (length (last w)) (hd inp)])
      else Inl ValueError)"

text \<open>\<open>image_number\<close> is an integer, or \<open>None\<close> when the caller leaves it out.\<close>

definition RunningMeanStd_run ::
  "rms \<Rightarrow> npfloat list \<Rightarrow> int option \<Rightarrow> (error + val) \<times> rms" where
  "RunningMeanStd_run self inp image_number =
     (case image_number of
        None \<Rightarrow> (Inl TypeError, self)
      | Some i \<Rightarrow>
          (if i < rms_n_skip self
           then (Inr (VTuple [VArray (vector (replicate (length inp) (Fin 0))),
                              VArray (vector (replicate (length inp) (Fin 1)))]), self)
           else
             (case (if rms_mean self = None then nan_window (rms_n self) (length inp)
                    else (case rms_samples self of
                            None \<Rightarrow> Inl TypeError
                          | Some w \<Rightarrow> Inr (shift_window w))) of
                Inl e \<Rightarrow> (Inl e, self)
              | Inr w \<Rightarrow>
                  (case set_last_row w inp of
                     Inl e \<Rightarrow> (Inl e, self\<lparr>rms_samples := Some w\<rparr>)
                   | Inr w' \<Rightarrow>
                       (let mean = axis0 np_nanmean (length (last w')) w';
                            std = axis0 np_nanstd (length (last w')) w'
                        in (Inr (VTuple [VArray (vector mean), VArray (vector std)]),
                            self\<lparr>rms_samples := Some w', rms_mean := Some mean,
                                 rms_std := Some std\<rparr>))))))"

text \<open>The object fed a sequence of vectors with their image numbers.\<close>

fun RunningMeanStd_runs ::
  "rms \<Rightarrow> (npfloat list \<times> int) list \<Rightarrow> (error + val) list \<times> rms" where
  "RunningMeanStd_runs self [] = ([], self)"
| "RunningMeanStd_runs self ((inp, i) # calls) =
     (case RunningMeanStd_run self inp (Some i) of
        (r, self1) \<Rightarrow>
          (case RunningMeanStd_runs self1 calls of (rs, self2) \<Rightarrow> (r # rs, self2)))"

text \<open>
  Two notions in which the behaviour over a sequence of calls is stated.  The samples that
  pass the skip test, in the order of the calls:
\<close>

definition accepted :: "int \<Rightarrow> (npfloat list \<times> int) list \<Rightarrow> npfloat list list" where
  "accepted n_skip calls = map fst (filter (\<lambda>(inp, i). \<not> i < n_skip) calls)"

text \<open>
  and the window of \<open>n\<close> rows of width \<open>sz\<close> that starts as not-a-number throughout and
  into which the samples \<open>seen\<close> have been pushed at the end, one by one, each pushing
  the first row out: the last \<open>n\<close> rows of the padding followed by the samples.
\<close>

definition window_after :: "nat \<Rightarrow> nat \<Rightarrow> npfloat list list \<Rightarrow> npfloat list list" where
  "window_after n sz seen = drop (length seen) (replicate n (replicate sz NaN) @ seen)"

text \<open>What holds of the object after the samples \<open>seen\<close> have been accepted.\<close>

definition rms_inv :: "int \<Rightarrow> int \<Rightarrow> nat \<Rightarrow> npfloat list list \<Rightarrow> rms \<Rightarrow> bool" where
  "rms_inv n n_skip sz seen self =
     (rms_n self = n \<and> rms_n_skip self = n_skip
      \<and> (if seen = [] then rms_mean self = None
          else rms_mean self \<noteq> None \<and> rms_samples self = Some (window_after (nat n) sz seen)))"

subsection \<open>ZScore\<close>

text \<open>\<open>mean\<close> and \<open>std\<close> are arrays or \<open>None\<close>.  The difference is taken first, so a shape
  mismatch there is reported before a missing \<open>std\<close>.\<close>

definition ZScore_run :: "ndarray \<Rightarrow> ndarray option \<Rightarrow> ndarray option \<Rightarrow> error + ndarray" where
  "ZScore_run array mean std =
     (case mean of
        None \<Rightarrow> Inr (np_zeros_like array)
      | Some m \<Rightarrow>
          (case np_binop np_sub array m of
             Inl e \<Rightarrow> Inl e
           | Inr d \<Rightarrow> (case std of None \<Rightarrow> Inl TypeError | Some s \<Rightarrow> np_binop np_div d s)))"

section \<open>Properties of the frame dictionary\<close>

lemma map_of_dict_update: "map_of (dict_update d ps) = map_of d ++ map_of (rev ps)"
proof (induction ps arbitrary: d)
  case Nil show ?case by simp
next
  case (Cons p ps)
  obtain k v where p: "p = (k, v)" by (cases p)
  show ?case
    by (simp add: p Cons.IH dict_setitem_def update_conv' map_add_upd_left fun_eq_iff map_add_def split: option.splits)
qed

lemma distinct_dict_update: "distinct (map fst d) \<Longrightarrow> distinct (map fst (dict_update d ps))"
  by (induction ps arbitrary: d) (auto simp: dict_setitem_def distinct_update)

lemma keys_dict_update: "fst ` set (dict_update d ps) = fst ` set d \<union> fst ` set ps"
proof (induction ps arbitrary: d)
  case Nil show ?case by simp
next
  case (Cons p ps)
  obtain k v where p: "p = (k, v)" by (cases p)
  show ?case unfolding p by (simp add: Cons.IH dict_setitem_def dom_update)
qed

lemma map_of_rev_distinct: "distinct (map fst xs) \<Longrightarrow> map_of (rev xs) = map_of xs"
proof (induction xs)
  case Nil show ?case by simp
next
  case (Cons p xs)
  obtain k v where p: "p = (k, v)" by (cases p)
  from Cons.prems have k: "k \<notin> fst ` set xs" and d: "distinct (map fst xs)" by (auto simp: p)
  have "map_of (rev (p # xs)) = map_of [(k, v)] ++ map_of (rev xs)" by (simp add: p)
  also have "\<dots> = map_of [(k, v)] ++ map_of xs" by (simp add: Cons.IH d)
  also have "\<dots> = (map_of xs)(k \<mapsto> v)"
  proof -
    have "map_of xs k = None" using k by (simp add: map_of_eq_None_iff)
    then show ?thesis by (auto simp: fun_eq_iff map_add_def split: option.splits)
  qed
  finally show ?case by (simp add: p)
qed

lemma map_of_store_outputs:
  "map_of (store_outputs outkeys outp d) =
     (map_of d)((case outkeys of None \<Rightarrow> [] | Some ks \<Rightarrow> ks) [\<mapsto>] normalize_output outp)"
proof -
  let ?ps = "zip (case outkeys of None \<Rightarrow> [] | Some ks \<Rightarrow> ks) (normalize_output outp)"
  have dist: "distinct (map fst (dict_of_pairs ?ps))"
    unfolding dict_of_pairs_def by (rule distinct_dict_update) simp
  have "map_of (store_outputs outkeys outp d) = map_of d ++ map_of (rev (dict_of_pairs ?ps))"
    by (simp add: store_outputs_def map_of_dict_update)
  also have "\<dots> = map_of d ++ map_of (dict_of_pairs ?ps)"
    by (simp add: map_of_rev_distinct [OF dist])
  also have "\<dots> = map_of d ++ map_of (rev ?ps)"
    by (simp add: dict_of_pairs_def map_of_dict_update)
  finally show ?thesis by (simp add: map_upds_def)
qed

lemma keys_store_outputs:
  "fst ` set (store_outputs outkeys outp d) =
     fst ` set d \<union> set (take (length (normalize_output outp))
                           (case outkeys of None \<Rightarrow> [] | Some ks \<Rightarrow> ks))"
proof -
  have z: "fst ` set (zip xs ys) = set (take (length ys) xs)" for xs :: "string list" and ys :: "val list"
  proof -
    have "fst ` set (zip xs ys) = set (map fst (zip xs ys))" by simp
    also have "\<dots> = set (take (min (length xs) (length ys)) xs)" by (simp only: map_fst_zip_take)
    also have "\<dots> = set (take (length ys) xs)" by (simp add: min_def)
    finally show ?thesis .
  qed
  show ?thesis
    by (simp add: store_outputs_def keys_dict_update dict_of_pairs_def z)
qed

section \<open>Properties of the loop of process\<close>

lemma lookup_inputs_missing:
  "find (\<lambda>k. map_of d k = None) ks = Some k0 \<Longrightarrow> lookup_inputs d ks = Inl (KeyError k0)"
  by (induction ks) (auto simp: dict_getitem_def split: option.splits if_splits)

lemma process_image_number:
  assumes "dict_getitem (h ref) ''image_number'' = Inr (VInt i)" "- (2 ^ 31) \<le> i" "i < 2 ^ 31"
  shows "process run p h ref =
           (case process_loop run p h ref of
              (Some e, p', h') \<Rightarrow> (Inl e, p', h')
            | (None, p', h') \<Rightarrow> (Inr ref, p', h'))"
  using assms by (simp add: process_def struct_pack_i_def)

lemma process_loop_append:
  "process_loop run pre h ref = (None, pre', h1) \<Longrightarrow>
   process_loop run (pre @ post) h ref =
     (case process_loop run post h1 ref of (r, post', h2) \<Rightarrow> (r, pre' @ post', h2))"
proof (induction pre arbitrary: h pre')
  case Nil
  then show ?case by (simp split: prod.splits)
next
  case (Cons s pre)
  from Cons.prems obtain ks inputs nm obj outp obj' p1 where
    st: "step_input s = Some ks" "lookup_inputs (h ref) ks = Inr inputs"
      "step_name s = Some nm" "step_instance s = Some obj" "run obj inputs = (Inr outp, obj')"
    and rec: "process_loop run pre (h(ref := store_outputs (step_output s) outp (h ref))) ref
               = (None, p1, h1)"
    and p': "pre' = s\<lparr>step_instance := Some obj'\<rparr> # p1"
    by (auto split: option.splits sum.splits prod.splits)
  show ?case
    by (simp add: st p' Cons.IH [OF rec] split: prod.splits)
qed

lemma process_loop_frame:
  "process_loop run p h ref = (r, p', h') \<Longrightarrow>
   (\<forall>a. a \<noteq> ref \<longrightarrow> h' a = h a) \<and> fst ` set (h ref) \<subseteq> fst ` set (h' ref) \<and> length p' = length p"
proof (induction p arbitrary: h r p' h')
  case Nil
  then show ?case by simp
next
  case (Cons s p)
  show ?case
  proof (cases "\<exists>ks inputs nm obj outp obj'. step_input s = Some ks \<and> lookup_inputs (h ref) ks = Inr inputs
      \<and> step_name s = Some nm \<and> step_instance s = Some obj \<and> run obj inputs = (Inr outp, obj')")
    case True
    then obtain ks inputs nm obj outp obj' where st: "step_input s = Some ks" "lookup_inputs (h ref) ks = Inr inputs"
      "step_name s = Some nm" "step_instance s = Some obj" "run obj inputs = (Inr outp, obj')" by blast
    let ?h1 = "h(ref := store_outputs (step_output s) outp (h ref))"
    obtain r1 p1 h2 where rec: "process_loop run p ?h1 ref = (r1, p1, h2)" by (metis prod_cases3)
    from Cons.prems st rec have eq: "r = r1" "p' = s\<lparr>step_instance := Some obj'\<rparr> # p1" "h' = h2"
      by simp_all
    from Cons.IH [OF rec] have ih: "\<forall>a. a \<noteq> ref \<longrightarrow> h2 a = ?h1 a"
      "fst ` set (?h1 ref) \<subseteq> fst ` set (h2 ref)" "length p1 = length p" by blast+
    have "fst ` set (h ref) \<subseteq> fst ` set (?h1 ref)" by (simp add: keys_store_outputs)
    with ih eq show ?thesis by auto
  next
    case False
    with Cons.prems have "h' = h \<and> length p' = length (s # p)"
      by (auto split: option.splits sum.splits prod.splits)
    then show ?thesis by simp
  qed
qed

section \<open>Properties of arrays of equal shape\<close>

lemma concat_chunks:
  "length xs = d * p \<Longrightarrow> concat (map (\<lambda>i. take p (drop (i * p) xs)) [0..<d]) = xs"
proof (induction d arbitrary: xs)
  case 0
  then show ?case by simp
next
  case (Suc d)
  have len: "length (drop p xs) = d * p" using Suc.prems by simp
  have upt: "[0..<Suc d] = 0 # map Suc [0..<d]" by (simp add: upt_conv_Cons map_Suc_upt)
  have dd: "drop (Suc i * p) xs = drop (i * p) (drop p xs)" for i by (simp add: add.commute)
  have "concat (map (\<lambda>i. take p (drop (i * p) xs)) [0..<Suc d])
      = take p xs @ concat (map (\<lambda>i. take p (drop (Suc i * p) xs)) [0..<d])"
    unfolding upt by (simp add: comp_def del: mult_Suc)
  also have "\<dots> = take p xs @ concat (map (\<lambda>i. take p (drop (i * p) (drop p xs))) [0..<d])"
    unfolding dd ..
  also have "\<dots> = take p xs @ drop p xs" by (simp only: Suc.IH [OF len])
  finally have "concat (map (\<lambda>i. take p (drop (i * p) xs)) [0..<Suc d]) = take p xs @ drop p xs" .
  then show ?case by (simp only: append_take_drop_id)
qed

lemma expand_same: "length xs = prod_list ds \<Longrightarrow> expand ds ds xs = xs"
proof (induction ds arbitrary: xs)
  case Nil
  then show ?case by simp
next
  case (Cons d ds)
  let ?p = "prod_list ds"
  have len: "length xs = d * ?p" using Cons.prems by simp
  have chunk: "expand ds ds (take ?p (drop (i * ?p) xs)) = take ?p (drop (i * ?p) xs)"
    if "i < d" for i
  proof (rule Cons.IH)
    from that have "Suc i * ?p \<le> d * ?p" by (intro mult_le_mono1) simp
    then show "length (take ?p (drop (i * ?p) xs)) = ?p" using len by simp
  qed
  have m: "map (\<lambda>i. expand ds ds (take ?p (drop (i * ?p) xs))) [0..<d]
      = map (\<lambda>i. take ?p (drop (i * ?p) xs)) [0..<d]"
    by (rule map_cong) (simp_all add: chunk)
  have e: "expand (d # ds) (d # ds) xs
      = concat (map (\<lambda>i. expand ds ds (take ?p (drop (i * ?p) xs))) [0..<d])"
    by simp
  show ?case unfolding e m by (rule concat_chunks [OF len])
qed

lemma broadcast_dims_same: "broadcast_dims xs xs = Some xs"
  by (induction xs) simp_all

lemma np_binop_same:
  assumes "wf_array a" and "wf_array b" and "shape b = shape a"
  shows "np_binop f a b = Inr \<lparr>shape = shape a, data = map2 f (data a) (data b)\<rparr>"
  using assms
  by (simp add: np_binop_def broadcast_shapes_def broadcast_dims_same broadcast_to_def
        expand_same wf_array_def)

lemma np_div_zero_not_finite: "\<not> is_finite (np_div x (Fin 0))"
  by (cases x) (simp_all add: inf_signed_def)

section \<open>Properties of the merge of the global parameters\<close>

lemma map_of_merge_global:
  "map_of (merge_global kwargs items) = map_of items ++ map_of kwargs"
proof (induction items arbitrary: kwargs)
  case Nil show ?case by simp
next
  case (Cons p items)
  obtain k v where p: "p = (k, v)" by (cases p)
  show ?case
    by (auto simp: p Cons.IH dict_setitem_def dict_get_def update_conv' fun_eq_iff map_add_def
          split: option.splits)
qed

lemma merge_global_present:
  "fst ` set items \<subseteq> fst ` set d \<Longrightarrow> merge_global d items = d"
proof (induction items)
  case Nil show ?case by simp
next
  case (Cons p items)
  obtain k v where p: "p = (k, v)" by (cases p)
  from Cons.prems have "k \<in> fst ` set d" by (simp add: p)
  then obtain w where w: "map_of d k = Some w"
    by (metis domD dom_map_of_conv_image_fst)
  have "dict_setitem d k (dict_get d k v) = d"
    by (simp add: dict_setitem_def dict_get_def w update_triv)
  with Cons show ?case by (simp add: p)
qed

lemma keys_merge_global:
  "fst ` set (merge_global d items) = fst ` set d \<union> fst ` set items"
proof (induction items arbitrary: d)
  case Nil show ?case by simp
next
  case (Cons p items)
  obtain k v where p: "p = (k, v)" by (cases p)
  show ?case unfolding p by (simp add: Cons.IH dict_setitem_def dom_update)
qed

lemma merge_global_idem: "merge_global (merge_global d g) g = merge_global d g"
  by (rule merge_global_present) (simp add: keys_merge_global)

lemma merge_global_self: "merge_global g g = g"
  by (rule merge_global_present) simp

section \<open>The store during build\<close>

lemma merged_store_refl: "merged_store h gp h"
  by (simp add: merged_store_def)

lemma build_step_merged:
  assumes "merged_store h0 gp h"
  shows "fst (build_step ctor gp s h) = fst (build_step ctor gp s h0)
       \<and> merged_store h0 gp (snd (build_step ctor gp s h))"
proof (cases "step_kwargs s")
  case None
  with assms show ?thesis
    by (auto simp: build_step_def merged_store_def Let_def split: option.splits sum.splits)
next
  case (Some a)
  from assms have g: "h gp = h0 gp" and d: "h a = h0 a \<or> h a = merge_global (h0 a) (h0 gp)"
    by (simp_all add: merged_store_def)
  from d have m: "merge_global (h a) (h gp) = merge_global (h0 a) (h0 gp)"
    by (auto simp: g merge_global_idem)
  let ?h1 = "h(a := merge_global (h0 a) (h0 gp))"
  have inv: "merged_store h0 gp ?h1"
    using assms by (auto simp: merged_store_def merge_global_self)
  have h1: "snd (build_step ctor gp s h) = (case step_name s of None \<Rightarrow> h | Some nm \<Rightarrow> ?h1)"
    by (simp add: build_step_def Some m Let_def split: option.splits sum.splits)
  have r: "fst (build_step ctor gp s h) = fst (build_step ctor gp s h0)"
    by (simp add: build_step_def Some m Let_def split: option.splits sum.splits)
  show ?thesis using r h1 inv assms by (simp split: option.splits)
qed

lemma build_steps_merged:
  "merged_store h0 gp h \<Longrightarrow> build_steps ctor gp steps acc h = (r, built, h') \<Longrightarrow>
   merged_store h0 gp h'"
proof (induction steps arbitrary: acc h)
  case Nil
  then show ?case by simp
next
  case (Cons s steps)
  obtain r1 h1 where b: "build_step ctor gp s h = (r1, h1)" by (cases "build_step ctor gp s h")
  from build_step_merged [OF Cons.prems(1), of ctor s] b have inv1: "merged_store h0 gp h1" by simp
  show ?case
  proof (cases r1)
    case (Inl e)
    with Cons.prems(2) b inv1 show ?thesis by simp
  next
    case (Inr s')
    with Cons.prems(2) b have "build_steps ctor gp steps (acc @ [s']) h1 = (r, built, h')" by simp
    from Cons.IH [OF inv1 this] show ?thesis .
  qed
qed

lemma build_steps_done:
  "merged_store h0 gp h \<Longrightarrow> build_steps ctor gp steps acc h = (None, built, h') \<Longrightarrow>
   \<exists>new. built = acc @ new \<and> list_all2 (\<lambda>s s'. fst (build_step ctor gp s h0) = Inr s') steps new"
proof (induction steps arbitrary: acc h)
  case Nil
  then show ?case by simp
next
  case (Cons s steps)
  obtain r1 h1 where b: "build_step ctor gp s h = (r1, h1)" by (cases "build_step ctor gp s h")
  from build_step_merged [OF Cons.prems(1), of ctor s] b
  have inv1: "merged_store h0 gp h1" and r1: "fst (build_step ctor gp s h0) = r1" by simp_all
  show ?case
  proof (cases r1)
    case (Inl e)
    with Cons.prems(2) b show ?thesis by simp
  next
    case (Inr s')
    with Cons.prems(2) b have "build_steps ctor gp steps (acc @ [s']) h1 = (None, built, h')" by simp
    from Cons.IH [OF inv1 this] obtain new where
      "built = (acc @ [s']) @ new" "list_all2 (\<lambda>s s'. fst (build_step ctor gp s h0) = Inr s') steps new"
      by blast
    then have "built = acc @ (s' # new) \<and>
      list_all2 (\<lambda>s s'. fst (build_step ctor gp s h0) = Inr s') (s # steps) (s' # new)"
      using r1 Inr by simp
    then show ?thesis by blast
  qed
qed

lemma build_steps_failed:
  "merged_store h0 gp h \<Longrightarrow> build_steps ctor gp steps acc h = (Some e, built, h') \<Longrightarrow>
   \<exists>s\<in>set steps. fst (build_step ctor gp s h0) = Inl e"
proof (induction steps arbitrary: acc h)
  case Nil
  then show ?case by simp
next
  case (Cons s steps)
  obtain r1 h1 where b: "build_step ctor gp s h = (r1, h1)" by (cases "build_step ctor gp s h")
  from build_step_merged [OF Cons.prems(1), of ctor s] b
  have inv1: "merged_store h0 gp h1" and r1: "fst (build_step ctor gp s h0) = r1" by simp_all
  show ?case
  proof (cases r1)
    case (Inl e1)
    with Cons.prems(2) b r1 show ?thesis by simp
  next
    case (Inr s')
    with Cons.prems(2) b have "build_steps ctor gp steps (acc @ [s']) h1 = (Some e, built, h')" by simp
    from Cons.IH [OF inv1 this] show ?thesis by simp
  qed
qed

lemma build_steps_all_built:
  assumes "merged_store h0 gp h"
    and "\<forall>t\<in>set steps. \<exists>t'. fst (build_step ctor gp t h0) = Inr t'"
  shows "fst (build_steps ctor gp steps acc h) = None"
proof (cases "fst (build_steps ctor gp steps acc h)")
  case None
  then show ?thesis .
next
  case (Some e)
  then obtain built h' where "build_steps ctor gp steps acc h = (Some e, built, h')"
    by (cases "build_steps ctor gp steps acc h") auto
  from build_steps_failed [OF assms(1) this] assms(2) show ?thesis by auto
qed

lemma build_steps_first_failure:
  assumes "merged_store h0 gp h"
    and "\<forall>t\<in>set pre. \<exists>t'. fst (build_step ctor gp t h0) = Inr t'"
    and "fst (build_step ctor gp s h0) = Inl e"
  shows "fst (build_steps ctor gp (pre @ s # post) acc h) = Some e"
  using assms(1,2)
proof (induction pre arbitrary: acc h)
  case Nil
  from build_step_merged [OF Nil(1), of ctor s] assms(3)
  have "fst (build_step ctor gp s h) = Inl e" by simp
  then show ?case by (cases "build_step ctor gp s h") simp
next
  case (Cons t pre)
  from Cons.prems(2) obtain t' where t': "fst (build_step ctor gp t h0) = Inr t'" by auto
  obtain r1 h1 where b: "build_step ctor gp t h = (r1, h1)" by (cases "build_step ctor gp t h")
  from build_step_merged [OF Cons.prems(1), of ctor t] b t'
  have r1: "r1 = Inr t'" and inv1: "merged_store h0 gp h1" by simp_all
  have "fst (build_steps ctor gp (pre @ s # post) (acc @ [t']) h1) = Some e"
    by (rule Cons.IH [OF inv1]) (use Cons.prems(2) in simp)
  then show ?case by (simp add: b r1)
qed

section \<open>The outcomes of build\<close>

lemma build_cases:
  obtains (static_failed) e built h1 where
      "build_steps ctor gp static [] h = (Some e, built, h1)"
      "build ctor self pipeline static gp h = (Some e, self\<lparr>self_static_pipeline := Some built\<rparr>, h1)"
  | (pipeline_failed) e built h1 built2 h2 where
      "build_steps ctor gp static [] h = (None, built, h1)"
      "build_steps ctor gp pipeline [] h1 = (Some e, built2, h2)"
      "build ctor self pipeline static gp h =
         (Some e, self\<lparr>self_static_pipeline := Some built, self_pipeline := Some built2\<rparr>, h2)"
  | (built) built h1 built2 h2 where
      "build_steps ctor gp static [] h = (None, built, h1)"
      "build_steps ctor gp pipeline [] h1 = (None, built2, h2)"
      "build ctor self pipeline static gp h =
         (None, self\<lparr>self_static_pipeline := Some built, self_pipeline := Some built2,
                     self_global_parameters := Some gp\<rparr>, h2)"
proof -
  obtain r1 built h1 where a: "build_steps ctor gp static [] h = (r1, built, h1)"
    by (metis prod_cases3)
  obtain r2 built2 h2 where b: "build_steps ctor gp pipeline [] h1 = (r2, built2, h2)"
    by (metis prod_cases3)
  show thesis
  proof (cases r1)
    case (Some e)
    with a show ?thesis by (intro static_failed [of e built h1]) (simp_all add: build_def)
  next
    case None
    note n1 = this
    show ?thesis
    proof (cases r2)
      case (Some e)
      with a b n1 show ?thesis
        by (intro pipeline_failed [of built h1 e built2 h2]) (simp_all add: build_def)
    next
      case None
      with a b n1 show ?thesis
        by (intro built [of built h1 built2 h2]) (simp_all add: build_def)
    qed
  qed
qed

lemma build_first_failure:
  assumes split: "static @ pipeline = pre @ s # post"
    and ok: "\<forall>t\<in>set pre. \<exists>t'. fst (build_step ctor gp t h) = Inr t'"
    and fail: "fst (build_step ctor gp s h) = Inl e"
  shows "fst (build ctor self pipeline static gp h) = Some e"
proof -
  have in_static: "fst (build ctor self pipeline static gp h) = Some e"
    if "static = pre @ s # us" for us
  proof -
    have "fst (build_steps ctor gp static [] h) = Some e"
      unfolding that by (rule build_steps_first_failure [OF merged_store_refl ok fail])
    then show ?thesis
      by (cases "build_steps ctor gp static [] h") (auto simp: build_def)
  qed
  have in_pipeline: "fst (build ctor self pipeline static gp h) = Some e"
    if pre: "pre = static @ us" and p: "pipeline = us @ s # post" for us
  proof -
    from ok pre have oks: "\<forall>t\<in>set static. \<exists>t'. fst (build_step ctor gp t h) = Inr t'"
      and oku: "\<forall>t\<in>set us. \<exists>t'. fst (build_step ctor gp t h) = Inr t'" by auto
    from build_steps_all_built [OF merged_store_refl oks, of "[]"]
    obtain built h1 where b1: "build_steps ctor gp static [] h = (None, built, h1)"
      by (cases "build_steps ctor gp static [] h") auto
    from build_steps_merged [OF merged_store_refl b1] have inv: "merged_store h gp h1" .
    have "fst (build_steps ctor gp pipeline [] h1) = Some e"
      unfolding p by (rule build_steps_first_failure [OF inv oku fail])
    then show ?thesis
      by (cases "build_steps ctor gp pipeline [] h1") (auto simp: build_def b1)
  qed
  from split obtain us where
    "(static = pre @ us \<and> us @ pipeline = s # post) \<or> (static @ us = pre \<and> pipeline = us @ s # post)"
    by (auto simp: append_eq_append_conv2)
  then show ?thesis
  proof
    assume a: "static = pre @ us \<and> us @ pipeline = s # post"
    show ?thesis
    proof (cases us)
      case Nil
      with a show ?thesis using in_pipeline [of "[]"] by simp
    next
      case (Cons u us')
      with a show ?thesis using in_static [of us'] by simp
    qed
  next
    assume "static @ us = pre \<and> pipeline = us @ s # post"
    then show ?thesis using in_pipeline [of us] by simp
  qed
qed

lemma build_steps_first_failure_built:
  assumes "merged_store h0 gp h"
    and "\<forall>t\<in>set pre. \<exists>t'. fst (build_step ctor gp t h0) = Inr t'"
    and "fst (build_step ctor gp s h0) = Inl e"
  shows "\<exists>new h'. build_steps ctor gp (pre @ s # post) acc h = (Some e, acc @ new, h')
           \<and> list_all2 (\<lambda>s s'. fst (build_step ctor gp s h0) = Inr s') pre new"
  using assms(1,2)
proof (induction pre arbitrary: acc h)
  case Nil
  from build_step_merged [OF Nil(1), of ctor s] assms(3)
  have "fst (build_step ctor gp s h) = Inl e" by simp
  then show ?case by (cases "build_step ctor gp s h") simp
next
  case (Cons t pre)
  from Cons.prems(2) obtain t' where t': "fst (build_step ctor gp t h0) = Inr t'" by auto
  obtain r1 h1 where b: "build_step ctor gp t h = (r1, h1)" by (cases "build_step ctor gp t h")
  from build_step_merged [OF Cons.prems(1), of ctor t] b t'
  have r1: "r1 = Inr t'" and inv1: "merged_store h0 gp h1" by simp_all
  have "\<exists>new h'. build_steps ctor gp (pre @ s # post) (acc @ [t']) h1 = (Some e, (acc @ [t']) @ new, h')
           \<and> list_all2 (\<lambda>s s'. fst (build_step ctor gp s h0) = Inr s') pre new"
    by (rule Cons.IH [OF inv1]) (use Cons.prems(2) in simp)
  then obtain new h' where
    n: "build_steps ctor gp (pre @ s # post) (acc @ [t']) h1 = (Some e, (acc @ [t']) @ new, h')"
    and l: "list_all2 (\<lambda>s s'. fst (build_step ctor gp s h0) = Inr s') pre new" by blast
  have "build_steps ctor gp ((t # pre) @ s # post) acc h = (Some e, acc @ (t' # new), h')
      \<and> list_all2 (\<lambda>s s'. fst (build_step ctor gp s h0) = Inr s') (t # pre) (t' # new)"
    using n l t' by (simp add: b r1)
  then show ?case by blast
qed

lemma build_first_failure_object:
  assumes split: "static @ pipeline = pre @ s # post"
    and ok: "\<forall>t\<in>set pre. \<exists>t'. fst (build_step ctor gp t h) = Inr t'"
    and fail: "fst (build_step ctor gp s h) = Inl e"
  shows "\<exists>self' h'. build ctor self pipeline static gp h = (Some e, self', h')
      \<and> (\<exists>sp. self_static_pipeline self' = Some sp
             \<and> list_all2 (\<lambda>s s'. fst (build_step ctor gp s h) = Inr s') (take (length pre) static) sp)
      \<and> (if length pre < length static then self_pipeline self' = self_pipeline self
          else (\<exists>p. self_pipeline self' = Some p
                  \<and> list_all2 (\<lambda>s s'. fst (build_step ctor gp s h) = Inr s')
                       (take (length pre - length static) pipeline) p))
      \<and> self_global_parameters self' = self_global_parameters self"
proof -
  have in_static: ?thesis if st: "static = pre @ s # us" for us
  proof -
    from build_steps_first_failure_built [OF merged_store_refl ok fail, of us "[]"]
    obtain new h1 where b: "build_steps ctor gp static [] h = (Some e, new, h1)"
      and l: "list_all2 (\<lambda>s s'. fst (build_step ctor gp s h) = Inr s') pre new"
      unfolding st by auto
    have "build ctor self pipeline static gp h = (Some e, self\<lparr>self_static_pipeline := Some new\<rparr>, h1)"
      by (simp add: build_def b)
    moreover have "take (length pre) static = pre" "length pre < length static" by (simp_all add: st)
    ultimately show ?thesis using l by simp
  qed
  have in_pipeline: ?thesis if pre: "pre = static @ us" and p: "pipeline = us @ s # post" for us
  proof -
    from ok pre have oks: "\<forall>t\<in>set static. \<exists>t'. fst (build_step ctor gp t h) = Inr t'"
      and oku: "\<forall>t\<in>set us. \<exists>t'. fst (build_step ctor gp t h) = Inr t'" by auto
    from build_steps_all_built [OF merged_store_refl oks, of "[]"]
    obtain built h1 where b1: "build_steps ctor gp static [] h = (None, built, h1)"
      by (cases "build_steps ctor gp static [] h") auto
    from build_steps_merged [OF merged_store_refl b1] have inv: "merged_store h gp h1" .
    from build_steps_done [OF merged_store_refl b1]
    have l1: "list_all2 (\<lambda>s s'. fst (build_step ctor gp s h) = Inr s') static built" by simp
    from build_steps_first_failure_built [OF inv oku fail, of post "[]"]
    obtain new h2 where b2: "build_steps ctor gp pipeline [] h1 = (Some e, new, h2)"
      and l2: "list_all2 (\<lambda>s s'. fst (build_step ctor gp s h) = Inr s') us new"
      unfolding p by auto
    have "build ctor self pipeline static gp h
        = (Some e, self\<lparr>self_static_pipeline := Some built, self_pipeline := Some new\<rparr>, h2)"
      by (simp add: build_def b1 b2)
    moreover have "take (length pre) static = static" "\<not> length pre < length static"
      "take (length pre - length static) pipeline = us" by (simp_all add: pre p)
    ultimately show ?thesis using l1 l2 by simp
  qed
  from split obtain us where
    "(static = pre @ us \<and> us @ pipeline = s # post) \<or> (static @ us = pre \<and> pipeline = us @ s # post)"
    by (auto simp: append_eq_append_conv2)
  then show ?thesis
  proof
    assume a: "static = pre @ us \<and> us @ pipeline = s # post"
    show ?thesis
    proof (cases us)
      case Nil
      with a show ?thesis using in_pipeline [of "[]"] by simp
    next
      case (Cons u us')
      with a show ?thesis using in_static [of us'] by simp
    qed
  next
    assume "static @ us = pre \<and> pipeline = us @ s # post"
    then show ?thesis using in_pipeline [of us] by simp
  qed
qed

section \<open>Mean and standard deviation of finite numbers\<close>

lemma foldl_np_add_Fin: "foldl np_add (Fin a) (map Fin xs) = Fin (a + sum_list xs)"
  by (induction xs arbitrary: a) (simp_all add: add.assoc)

lemma np_sum_Fin: "np_sum (map Fin xs) = Fin (sum_list xs)"
  by (simp add: np_sum_def foldl_np_add_Fin)

lemma np_mean_Fin:
  "xs \<noteq> [] \<Longrightarrow> np_mean (map Fin xs) = Fin (sum_list xs / real (length xs))"
  by (simp add: np_mean_def np_sum_Fin)

lemma np_std_Fin:
  assumes "xs \<noteq> []"
  shows "np_std (map Fin xs)
     = Fin (sqrt (sum_list (map (\<lambda>x. (x - sum_list xs / real (length xs))\<^sup>2) xs)
                   / real (length xs)))"
proof -
  let ?mu = "sum_list xs / real (length xs)"
  let ?sq = "map (\<lambda>x. (x - ?mu)\<^sup>2) xs"
  have dev: "map (\<lambda>x. np_mul (np_sub x (Fin ?mu)) (np_sub x (Fin ?mu))) (map Fin xs) = map Fin ?sq"
    by (simp add: np_sub_def power2_eq_square)
  have "?sq \<noteq> []" using assms by simp
  then have m2: "np_mean (map Fin ?sq) = Fin (sum_list ?sq / real (length xs))"
    using np_mean_Fin [of ?sq] by simp
  have "0 \<le> sum_list ?sq" by (rule sum_list_nonneg) auto
  then have nonneg: "\<not> sum_list ?sq / real (length xs) < 0"
    by (simp add: not_less)
  show ?thesis
    unfolding np_std_def Let_def np_mean_Fin [OF assms] dev m2 using nonneg by simp
qed

lemma np_mean_pair: "np_mean [Fin x, Fin y] = Fin ((x + y) / 2)"
  using np_mean_Fin [of "[x, y]"] by simp

lemma np_std_pair: "np_std [Fin x, Fin y] = Fin (\<bar>x - y\<bar> / 2)"
proof -
  have "((x - (x + y) / 2)\<^sup>2 + (y - (x + y) / 2)\<^sup>2) / 2 = ((x - y) / 2)\<^sup>2"
    by (simp add: power2_eq_square field_simps)
  then have "sqrt (((x - (x + y) / 2)\<^sup>2 + (y - (x + y) / 2)\<^sup>2) / 2) = \<bar>x - y\<bar> / 2"
    by (simp only: real_sqrt_abs) simp
  then show ?thesis using np_std_Fin [of "[x, y]"] by simp
qed

lemma length_axis0: "length (axis0 f w rows) = w"
  by (simp add: axis0_def)

lemma np_nanmean_padded:
  "np_nanmean (replicate p NaN @ map Fin xs) = np_mean (map Fin xs)"
  by (simp add: np_nanmean_def filter_map comp_def)

lemma np_nanstd_padded:
  "np_nanstd (replicate p NaN @ map Fin xs) = np_std (map Fin xs)"
  by (simp add: np_nanstd_def filter_map comp_def)

section \<open>The calls of IncrementalMeanStd.run\<close>

lemma IncrementalMeanStd_first_call:
  assumes "ims_data self = None" and "wf_array a"
  shows "IncrementalMeanStd_run self a =
           (Inr (VTuple [VNone, VNone]),
            self\<lparr>ims_array_shape := Some (shape a),
                 ims_data := Some \<lparr>buf_size = np_size a, buf_rows = [data a]\<rparr>\<rparr>)"
  using assms
  by (simp add: IncrementalMeanStd_run_def BufferedArray_append_def BufferedArray_init_def
        wf_array_def np_size_def Let_def)

lemma IncrementalMeanStd_later_call:
  assumes "ims_array_shape self = Some shp" and "ims_data self = Some b"
    and "prod_list shp = buf_size b" and "length (data a) = buf_size b"
  shows "IncrementalMeanStd_run self a =
           (Inr (VTuple
                  [VArray \<lparr>shape = shp, data = axis0 np_mean (buf_size b) (buf_rows b @ [data a])\<rparr>,
                   VArray \<lparr>shape = shp, data = axis0 np_std (buf_size b) (buf_rows b @ [data a])\<rparr>]),
            self\<lparr>ims_data := Some (b\<lparr>buf_rows := buf_rows b @ [data a]\<rparr>)\<rparr>)"
  using assms
  by (simp add: IncrementalMeanStd_run_def BufferedArray_append_def BufferedArray_get_array_def
        np_reshape_def length_axis0 Let_def)

lemma IncrementalMeanStd_runs_later:
  assumes "ims_array_shape self = Some shp" and "ims_data self = Some b"
    and "prod_list shp = buf_size b" and "\<forall>a\<in>set as. length (data a) = buf_size b"
  shows "IncrementalMeanStd_runs self as =
           (map (\<lambda>k. Inr (VTuple
                  [VArray \<lparr>shape = shp,
                          data = axis0 np_mean (buf_size b) (buf_rows b @ map data (take (Suc k) as))\<rparr>,
                   VArray \<lparr>shape = shp,
                          data = axis0 np_std (buf_size b) (buf_rows b @ map data (take (Suc k) as))\<rparr>]))
               [0..<length as],
            self\<lparr>ims_data := Some (b\<lparr>buf_rows := buf_rows b @ map data as\<rparr>)\<rparr>)"
  using assms
proof (induction as arbitrary: self b)
  case Nil
  then show ?case by simp
next
  case (Cons a as)
  let ?b1 = "b\<lparr>buf_rows := buf_rows b @ [data a]\<rparr>"
  let ?self1 = "self\<lparr>ims_data := Some ?b1\<rparr>"
  have la: "length (data a) = buf_size b" using Cons.prems(4) by simp
  note one = IncrementalMeanStd_later_call [OF Cons.prems(1,2,3) la]
  have ih: "IncrementalMeanStd_runs ?self1 as =
           (map (\<lambda>k. Inr (VTuple
                  [VArray \<lparr>shape = shp,
                          data = axis0 np_mean (buf_size ?b1) (buf_rows ?b1 @ map data (take (Suc k) as))\<rparr>,
                   VArray \<lparr>shape = shp,
                          data = axis0 np_std (buf_size ?b1) (buf_rows ?b1 @ map data (take (Suc k) as))\<rparr>]))
               [0..<length as],
            ?self1\<lparr>ims_data := Some (?b1\<lparr>buf_rows := buf_rows ?b1 @ map data as\<rparr>)\<rparr>)"
    by (rule Cons.IH) (use Cons.prems in simp_all)
  have "[0..<Suc n] = 0 # map Suc [0..<n]" for n
    by (simp add: upt_conv_Cons map_Suc_upt del: upt_Suc)
  then have upt: "[0..<length (a # as)] = 0 # map Suc [0..<length as]"
    by simp
  show ?case
    unfolding upt by (simp add: one ih comp_def)
qed

lemma axis0_pair:
  assumes "length xs = n" and "length ys = n"
  shows "axis0 f n [map Fin xs, map Fin ys] = map2 (\<lambda>x y. f [Fin x, Fin y]) xs ys"
  using assms by (intro nth_equalityI) (simp_all add: axis0_def)

section \<open>The calls of RunningMeanStd.run\<close>

lemma RunningMeanStd_skipped_call:
  "i < rms_n_skip self \<Longrightarrow>
   RunningMeanStd_run self inp (Some i) =
     (Inr (VTuple [VArray (vector (replicate (length inp) (Fin 0))),
                   VArray (vector (replicate (length inp) (Fin 1)))]), self)"
  by (simp add: RunningMeanStd_run_def)

lemma RunningMeanStd_real_call:
  assumes "\<not> i < rms_n_skip self"
    and "(rms_mean self = None \<and> 1 \<le> rms_n self
           \<and> w = replicate (nat (rms_n self)) (replicate (length inp) NaN))
       \<or> (rms_mean self \<noteq> None \<and> rms_samples self = Some w \<and> w \<noteq> []
           \<and> length (last w) = length inp)"
  shows "RunningMeanStd_run self inp (Some i) =
     (Inr (VTuple [VArray (vector (axis0 np_nanmean (length inp) (tl w @ [inp]))),
                   VArray (vector (axis0 np_nanstd (length inp) (tl w @ [inp])))]),
      self\<lparr>rms_samples := Some (tl w @ [inp]),
           rms_mean := Some (axis0 np_nanmean (length inp) (tl w @ [inp])),
           rms_std := Some (axis0 np_nanstd (length inp) (tl w @ [inp]))\<rparr>)"
  using assms(2)
proof
  assume a: "rms_mean self = None \<and> 1 \<le> rms_n self
           \<and> w = replicate (nat (rms_n self)) (replicate (length inp) NaN)"
  then obtain m where m: "nat (rms_n self) = Suc m" by (cases "nat (rms_n self)") auto
  have w: "w = replicate (Suc m) (replicate (length inp) NaN)" using a m by simp
  have e: "w = replicate m (replicate (length inp) NaN) @ [replicate (length inp) NaN]"
    unfolding w by (simp add: replicate_append_same)
  have t: "tl w = replicate m (replicate (length inp) NaN)" unfolding w by simp
  have sl: "set_last_row w inp = Inr (tl w @ [inp])"
    unfolding t unfolding e by (simp add: set_last_row_def)
  show ?thesis
    using assms(1) a sl by (simp add: RunningMeanStd_run_def nan_window_def Let_def)
next
  assume a: "rms_mean self \<noteq> None \<and> rms_samples self = Some w \<and> w \<noteq> []
           \<and> length (last w) = length inp"
  have sl: "set_last_row (shift_window w) inp = Inr (tl w @ [inp])"
    using a by (simp add: set_last_row_def shift_window_def)
  show ?thesis
    using assms(1) a sl by (auto simp: RunningMeanStd_run_def Let_def)
qed

lemma window_after_Nil: "window_after n sz [] = replicate n (replicate sz NaN)"
  by (simp add: window_after_def)

lemma length_window_after: "length (window_after n sz seen) = n"
  by (simp add: window_after_def)

lemma window_after_snoc:
  assumes "1 \<le> n"
  shows "window_after n sz (seen @ [x]) = tl (window_after n sz seen) @ [x]"
proof -
  let ?q = "replicate n (replicate sz NaN) @ seen"
  have "Suc (length seen) - length ?q = 0" using assms by simp
  then have a: "drop (Suc (length seen)) (?q @ [x]) = drop (Suc (length seen)) ?q @ [x]"
    by (simp only: drop_append drop_0)
  have b: "tl (drop (length seen) ?q) = drop (Suc (length seen)) ?q"
    by (simp only: drop_Suc tl_drop)
  have "window_after n sz (seen @ [x]) = drop (Suc (length seen)) (?q @ [x])"
    by (simp add: window_after_def)
  then show ?thesis unfolding a b [symmetric] by (simp only: window_after_def)
qed

lemma window_after_split:
  "window_after n sz seen
     = replicate (n - length seen) (replicate sz NaN) @ drop (length seen - n) seen"
  by (simp add: window_after_def)

lemma window_after_rows:
  "\<forall>r\<in>set seen. length r = sz \<Longrightarrow> r \<in> set (window_after n sz seen) \<Longrightarrow> length r = sz"
  by (auto simp: window_after_split dest: in_set_dropD)

lemma accepted_Cons:
  "accepted n_skip ((x, i) # calls)
     = (if i < n_skip then accepted n_skip calls else x # accepted n_skip calls)"
  by (simp add: accepted_def)

lemma accepted_rows:
  "\<forall>c\<in>set calls. length (fst c) = sz \<Longrightarrow> \<forall>r\<in>set (accepted n_skip calls). length r = sz"
  by (auto simp: accepted_def)

lemma RunningMeanStd_accepted_call:
  assumes n: "1 \<le> n" and x: "length x = sz" and rows: "\<forall>r\<in>set seen. length r = sz"
    and inv: "rms_inv n n_skip sz seen self" and i: "\<not> i < n_skip"
  shows "RunningMeanStd_run self x (Some i) =
     (Inr (VTuple [VArray (vector (axis0 np_nanmean sz (window_after (nat n) sz (seen @ [x])))),
                   VArray (vector (axis0 np_nanstd sz (window_after (nat n) sz (seen @ [x]))))]),
      self\<lparr>rms_samples := Some (window_after (nat n) sz (seen @ [x])),
           rms_mean := Some (axis0 np_nanmean sz (window_after (nat n) sz (seen @ [x]))),
           rms_std := Some (axis0 np_nanstd sz (window_after (nat n) sz (seen @ [x])))\<rparr>)"
proof -
  let ?w = "window_after (nat n) sz seen"
  have n1: "1 \<le> nat n" using n by simp
  have ne: "?w \<noteq> []" using length_window_after [of "nat n" sz seen] n1 by auto
  then have "last ?w \<in> set ?w" by simp
  from window_after_rows [OF rows this] have lw: "length (last ?w) = length x" using x by simp
  have skip: "\<not> i < rms_n_skip self" using inv i by (simp add: rms_inv_def)
  have cond: "(rms_mean self = None \<and> 1 \<le> rms_n self
           \<and> ?w = replicate (nat (rms_n self)) (replicate (length x) NaN))
       \<or> (rms_mean self \<noteq> None \<and> rms_samples self = Some ?w \<and> ?w \<noteq> []
           \<and> length (last ?w) = length x)"
  proof (cases "seen = []")
    case True
    with inv n x show ?thesis by (simp add: rms_inv_def window_after_Nil)
  next
    case False
    with inv ne lw show ?thesis by (simp add: rms_inv_def)
  qed
  show ?thesis
    using RunningMeanStd_real_call [OF skip cond]
    by (simp add: window_after_snoc [OF n1] x)
qed

lemma RunningMeanStd_runs_inv:
  assumes "1 \<le> n" and "\<forall>c\<in>set calls. length (fst c) = sz" and "\<forall>r\<in>set seen. length r = sz"
    and "rms_inv n n_skip sz seen self"
  shows "rms_inv n n_skip sz (seen @ accepted n_skip calls) (snd (RunningMeanStd_runs self calls))"
  using assms(2-)
proof (induction calls arbitrary: self seen)
  case Nil
  then show ?case by (simp add: accepted_def)
next
  case (Cons c calls)
  obtain x i where c: "c = (x, i)" by (cases c)
  have x: "length x = sz" and rest: "\<forall>c\<in>set calls. length (fst c) = sz"
    using Cons.prems(1) by (simp_all add: c)
  show ?case
  proof (cases "i < n_skip")
    case True
    then have "i < rms_n_skip self" using Cons.prems(3) by (simp add: rms_inv_def)
    from RunningMeanStd_skipped_call [OF this, of x]
    have "snd (RunningMeanStd_runs self (c # calls)) = snd (RunningMeanStd_runs self calls)"
      by (simp add: c split: prod.splits)
    with Cons.IH [OF rest Cons.prems(2,3)] True show ?thesis
      by (simp add: c accepted_Cons)
  next
    case False
    let ?w = "window_after (nat n) sz (seen @ [x])"
    let ?self1 = "self\<lparr>rms_samples := Some ?w,
           rms_mean := Some (axis0 np_nanmean sz ?w),
           rms_std := Some (axis0 np_nanstd sz ?w)\<rparr>"
    note call = RunningMeanStd_accepted_call [OF assms(1) x Cons.prems(2,3) False]
    have inv1: "rms_inv n n_skip sz (seen @ [x]) ?self1"
      using Cons.prems(3) by (simp add: rms_inv_def)
    have rows1: "\<forall>r\<in>set (seen @ [x]). length r = sz" using Cons.prems(2) x by simp
    have "snd (RunningMeanStd_runs self (c # calls)) = snd (RunningMeanStd_runs ?self1 calls)"
      by (simp add: c call split: prod.splits)
    with Cons.IH [OF rest rows1 inv1] False show ?thesis
      by (simp add: c accepted_Cons)
  qed
qed

lemma rms_inv_init: "rms_inv n n_skip sz [] (RunningMeanStd_init n n_skip)"
  by (simp add: rms_inv_def RunningMeanStd_init_def)

lemma window_finite_column:
  assumes "\<forall>xs\<in>set xss. length xs = sz" and "j < sz"
  shows "map (\<lambda>r. r ! j) (window_after n sz (map (map Fin) xss))
     = replicate (n - length xss) NaN @ map Fin (map (\<lambda>xs. xs ! j) (drop (length xss - n) xss))"
proof -
  have "xs \<in> set (drop (length xss - n) xss) \<Longrightarrow> map Fin xs ! j = Fin (xs ! j)" for xs
    using assms by (auto dest: in_set_dropD)
  then show ?thesis
    using assms(2) by (simp add: window_after_split drop_map)
qed

lemma window_finite_stats:
  assumes n: "1 \<le> n" and ne: "xss \<noteq> []" and rows: "\<forall>xs\<in>set xss. length xs = sz"
  shows "axis0 np_nanmean sz (window_after n sz (map (map Fin) xss))
       = map (\<lambda>j. Fin (sum_list (map (\<lambda>xs. xs ! j) (drop (length xss - n) xss))
                       / real (length (drop (length xss - n) xss)))) [0..<sz]"
    and "axis0 np_nanstd sz (window_after n sz (map (map Fin) xss))
       = map (\<lambda>j. Fin (sqrt (sum_list (map (\<lambda>x. (x - sum_list (map (\<lambda>xs. xs ! j) (drop (length xss - n) xss))
                                                    / real (length (drop (length xss - n) xss)))\<^sup>2)
                                         (map (\<lambda>xs. xs ! j) (drop (length xss - n) xss)))
                              / real (length (drop (length xss - n) xss))))) [0..<sz]"
    and "drop (length xss - n) xss \<noteq> []"
proof -
  let ?recent = "drop (length xss - n) xss"
  show r: "?recent \<noteq> []" using n ne by (cases xss) auto
  then have c: "map (\<lambda>xs. xs ! j) ?recent \<noteq> []" for j by simp
  show "axis0 np_nanmean sz (window_after n sz (map (map Fin) xss))
       = map (\<lambda>j. Fin (sum_list (map (\<lambda>xs. xs ! j) ?recent) / real (length ?recent))) [0..<sz]"
    unfolding axis0_def
  proof (rule map_cong [OF refl])
    fix j assume "j \<in> set [0..<sz]"
    then have j: "j < sz" by simp
    show "np_nanmean (map (\<lambda>r. r ! j) (window_after n sz (map (map Fin) xss)))
        = Fin (sum_list (map (\<lambda>xs. xs ! j) ?recent) / real (length ?recent))"
      by (simp only: window_finite_column [OF rows j] np_nanmean_padded np_mean_Fin [OF c]
            length_map)
  qed
  show "axis0 np_nanstd sz (window_after n sz (map (map Fin) xss))
       = map (\<lambda>j. Fin (sqrt (sum_list (map (\<lambda>x. (x - sum_list (map (\<lambda>xs. xs ! j) ?recent)
                                                    / real (length ?recent))\<^sup>2)
                                         (map (\<lambda>xs. xs ! j) ?recent))
                              / real (length ?recent)))) [0..<sz]"
    unfolding axis0_def
  proof (rule map_cong [OF refl])
    fix j assume "j \<in> set [0..<sz]"
    then have j: "j < sz" by simp
    show "np_nanstd (map (\<lambda>r. r ! j) (window_after n sz (map (map Fin) xss)))
        = Fin (sqrt (sum_list (map (\<lambda>x. (x - sum_list (map (\<lambda>xs. xs ! j) ?recent)
                                                    / real (length ?recent))\<^sup>2)
                                         (map (\<lambda>xs. xs ! j) ?recent))
                              / real (length ?recent)))"
      by (simp only: window_finite_column [OF rows j] np_nanstd_padded np_std_Fin [OF c]
            length_map)
  qed
qed

section \<open>Claims about Pipeline.process\<close>

text \<open>
  Claim C1.  For a step that the loop reaches and whose call returns: a result that is
  neither a list nor a tuple counts as a sequence of one element; the outputs are paired
  by position with the declared output keys, what is left over on either side is dropped
  without an error, and the pairs are stored in the frame, replacing the values of keys
  that are already there.  The keys of the frame afterwards are the old ones and the
  first \<open>length outs\<close> output keys.  (With three values and two keys, two keys are bound:
  the example below.)
\<close>

theorem process_binds_outputs:
  assumes img: "dict_getitem (h ref) ''image_number'' = Inr (VInt i)" "- (2 ^ 31) \<le> i" "i < 2 ^ 31"
    and pre: "process_loop run pre h ref = (None, pre', h1)"
    and inp: "step_input s = Some ks" "lookup_inputs (h1 ref) ks = Inr inputs"
    and nm: "step_name s = Some nm" and obj: "step_instance s = Some obj"
    and run: "run obj inputs = (Inr outp, obj')"
  shows "let keys = (case step_output s of None \<Rightarrow> [] | Some ks \<Rightarrow> ks);
             outs = (case outp of VList xs \<Rightarrow> xs | VTuple xs \<Rightarrow> xs | _ \<Rightarrow> [outp]);
             frame = store_outputs (step_output s) outp (h1 ref);
             s' = s\<lparr>step_instance := Some obj'\<rparr>
         in process run (pre @ [s]) h ref = (Inr ref, pre' @ [s'], h1(ref := frame))
          \<and> process_loop run (pre @ s # rest) h ref =
              (case process_loop run rest (h1(ref := frame)) ref of
                 (r, rest', h2) \<Rightarrow> (r, pre' @ s' # rest', h2))
          \<and> map_of frame = (map_of (h1 ref))(keys [\<mapsto>] outs)
          \<and> fst ` set frame = fst ` set (h1 ref) \<union> set (take (length outs) keys)"
proof -
  have outs: "(case outp of VList xs \<Rightarrow> xs | VTuple xs \<Rightarrow> xs | _ \<Rightarrow> [outp]) = normalize_output outp"
    by (simp add: normalize_output_def)
  have a: "process run (pre @ [s]) h ref =
      (Inr ref, pre' @ [s\<lparr>step_instance := Some obj'\<rparr>],
       h1(ref := store_outputs (step_output s) outp (h1 ref)))"
    by (simp add: process_image_number [where h=h and ref=ref, OF img] process_loop_append [OF pre] inp nm obj run)
  have b: "process_loop run (pre @ s # rest) h ref =
              (case process_loop run rest (h1(ref := store_outputs (step_output s) outp (h1 ref))) ref of
                 (r, rest', h2) \<Rightarrow> (r, pre' @ s\<lparr>step_instance := Some obj'\<rparr> # rest', h2))"
    by (simp add: process_loop_append [OF pre] inp nm obj run split: prod.splits)
  show ?thesis
    unfolding Let_def outs
    using a b map_of_store_outputs keys_store_outputs by blast
qed

theorem process_binds_outputs_witness:
  "(let run = (\<lambda>(obj :: unit) (args :: val list). (Inr (VTuple [VInt 1, VInt 2, VInt 3]) :: error + val, obj));
        s = \<lparr>step_name = Some ''triple'', step_class_name = Some ''Triple'', step_args = None,
             step_kwargs = None, step_input = Some [''image_number''],
             step_output = Some [''a'', ''b''], step_instance = Some ()\<rparr>;
        h = (\<lambda>a :: addr. [(''image_number'', VInt 0)])
    in dict_getitem (h 0) ''image_number'' = Inr (VInt 0)
     \<and> process_loop run [] h 0 = (None, [], h)
     \<and> lookup_inputs (h 0) [''image_number''] = Inr [VInt 0]
     \<and> run () [VInt 0] = (Inr (VTuple [VInt 1, VInt 2, VInt 3]), ())
     \<and> process run [s] h 0
          = (Inr 0, [s], h(0 := [(''image_number'', VInt 0), (''a'', VInt 1), (''b'', VInt 2)]))
     \<and> fst ` set (store_outputs (step_output s) (VTuple [VInt 1, VInt 2, VInt 3]) (h 0))
          = {''image_number'', ''a'', ''b''})"
proof -
  let ?run = "\<lambda>(obj :: unit) (args :: val list). (Inr (VTuple [VInt 1, VInt 2, VInt 3]) :: error + val, obj)"
  let ?s = "\<lparr>step_name = Some ''triple'', step_class_name = Some ''Triple'', step_args = None,
             step_kwargs = None, step_input = Some [''image_number''],
             step_output = Some [''a'', ''b''], step_instance = Some ()\<rparr>"
  let ?h = "\<lambda>a :: addr. [(''image_number'', VInt 0)]"
  have img: "dict_getitem (?h 0) ''image_number'' = Inr (VInt 0)" "- (2 ^ 31) \<le> (0::int)" "(0::int) < 2 ^ 31"
    by (simp_all add: dict_getitem_def)
  have pre: "process_loop ?run [] ?h 0 = (None, [], ?h)" by simp
  have inp: "step_input ?s = Some [''image_number'']"
    "lookup_inputs (?h 0) [''image_number''] = Inr [VInt 0]"
    by (simp_all add: dict_getitem_def)
  have nm: "step_name ?s = Some ''triple''" and obj: "step_instance ?s = Some ()" by simp_all
  have run: "?run () [VInt 0] = (Inr (VTuple [VInt 1, VInt 2, VInt 3]), ())" by simp
  have st: "store_outputs (Some [''a'', ''b'']) (VTuple [VInt 1, VInt 2, VInt 3]) [(''image_number'', VInt 0)]
     = [(''image_number'', VInt 0), (''a'', VInt 1), (''b'', VInt 2)]"
    by (simp add: store_outputs_def dict_of_pairs_def normalize_output_def dict_setitem_def)
  from process_binds_outputs [where run = ?run and h = ?h and ref = 0 and rest = "[]",
      OF img pre inp nm obj run]
  show ?thesis
    using img pre inp run by (simp add: Let_def st insert_commute)
qed

text \<open>
  Claim C2.  Steps run in the declared order.  When the loop reaches a step one of whose
  declared input keys is absent from the frame, \<open>process\<close> ends with the \<open>KeyError\<close> of
  the first absent key: the caller receives the error, the steps from this one on are not
  run and keep their objects, and the pipeline can be given the next frame.
\<close>

theorem process_missing_input_key:
  assumes img: "dict_getitem (h ref) ''image_number'' = Inr (VInt i)" "- (2 ^ 31) \<le> i" "i < 2 ^ 31"
    and pre: "process_loop run pre h ref = (None, pre', h1)"
    and inp: "step_input s = Some ks"
    and miss: "find (\<lambda>k. map_of (h1 ref) k = None) ks = Some k0"
  shows "process run (pre @ s # rest) h ref = (Inl (KeyError k0), pre' @ s # rest, h1)"
  by (simp add: process_image_number [where h=h and ref=ref, OF img] process_loop_append [OF pre] inp
        lookup_inputs_missing [OF miss])

theorem process_missing_input_key_witness:
  "(let run = (\<lambda>(obj :: nat) (args :: val list). (Inr (VInt 7) :: error + val, Suc obj));
        first = \<lparr>step_name = Some ''first'', step_class_name = Some ''First'', step_args = None,
                 step_kwargs = None, step_input = Some [''image_number''],
                 step_output = Some [''x''], step_instance = Some 0\<rparr>;
        second = \<lparr>step_name = Some ''second'', step_class_name = Some ''Second'', step_args = None,
                  step_kwargs = None, step_input = Some [''x'', ''y'', ''z''],
                  step_output = Some [''w''], step_instance = Some 0\<rparr>;
        third = \<lparr>step_name = Some ''third'', step_class_name = Some ''Third'', step_args = None,
                 step_kwargs = None, step_input = Some [''w''],
                 step_output = None, step_instance = Some 0\<rparr>;
        h = (\<lambda>a :: addr. [(''image_number'', VInt 3)]);
        h1 = h(0 := [(''image_number'', VInt 3), (''x'', VInt 7)])
    in dict_getitem (h 0) ''image_number'' = Inr (VInt 3)
     \<and> process_loop run [first] h 0 = (None, [first\<lparr>step_instance := Some 1\<rparr>], h1)
     \<and> find (\<lambda>k. map_of (h1 0) k = None) [''x'', ''y'', ''z''] = Some ''y''
     \<and> process run [first, second, third] h 0
          = (Inl (KeyError ''y''), [first\<lparr>step_instance := Some 1\<rparr>, second, third], h1))"
proof -
  let ?run = "\<lambda>(obj :: nat) (args :: val list). (Inr (VInt 7) :: error + val, Suc obj)"
  let ?first = "\<lparr>step_name = Some ''first'', step_class_name = Some ''First'', step_args = None,
                 step_kwargs = None, step_input = Some [''image_number''],
                 step_output = Some [''x''], step_instance = Some (0::nat)\<rparr>"
  let ?second = "\<lparr>step_name = Some ''second'', step_class_name = Some ''Second'', step_args = None,
                  step_kwargs = None, step_input = Some [''x'', ''y'', ''z''],
                  step_output = Some [''w''], step_instance = Some (0::nat)\<rparr>"
  let ?third = "\<lparr>step_name = Some ''third'', step_class_name = Some ''Third'', step_args = None,
                 step_kwargs = None, step_input = Some [''w''],
                 step_output = None, step_instance = Some (0::nat)\<rparr>"
  let ?h = "\<lambda>a :: addr. [(''image_number'', VInt 3)]"
  let ?h1 = "?h(0 := [(''image_number'', VInt 3), (''x'', VInt 7)])"
  have img: "dict_getitem (?h 0) ''image_number'' = Inr (VInt 3)" "- (2 ^ 31) \<le> (3::int)" "(3::int) < 2 ^ 31"
    by (simp_all add: dict_getitem_def)
  have pre: "process_loop ?run [?first] ?h 0 = (None, [?first\<lparr>step_instance := Some 1\<rparr>], ?h1)"
    by (simp add: dict_getitem_def store_outputs_def dict_of_pairs_def normalize_output_def
          dict_setitem_def)
  have inp: "step_input ?second = Some [''x'', ''y'', ''z'']" by simp
  have miss: "find (\<lambda>k. map_of (?h1 0) k = None) [''x'', ''y'', ''z''] = Some ''y''" by simp
  from process_missing_input_key [where run = ?run and h = ?h and ref = 0 and rest = "[?third]",
      OF img pre inp miss]
  show ?thesis
    using img pre miss by (simp add: Let_def fun_eq_iff)
qed

text \<open>
  Claim C9.  \<open>process\<close> works on the caller's dict: on success it returns the address it
  was given, and no other dict of the store changes.  When the lookup of the inputs of a
  step fails, the caller's dict is left exactly as the steps before have made it (it
  holds their outputs and has lost none of its keys); nothing is undone.
\<close>

theorem process_mutates_frame_in_place:
  assumes img: "dict_getitem (h ref) ''image_number'' = Inr (VInt i)" "- (2 ^ 31) \<le> i" "i < 2 ^ 31"
    and pre: "process_loop run pre h ref = (None, pre', h1)"
    and inp: "step_input s = Some ks"
    and miss: "find (\<lambda>k. map_of (h1 ref) k = None) ks = Some k0"
  shows "process run pre h ref = (Inr ref, pre', h1)
       \<and> isl (fst (process run (pre @ s # rest) h ref))
       \<and> snd (snd (process run (pre @ s # rest) h ref)) = h1
       \<and> (\<forall>a. a \<noteq> ref \<longrightarrow> h1 a = h a)
       \<and> fst ` set (h ref) \<subseteq> fst ` set (h1 ref)"
proof -
  have "process run (pre @ s # rest) h ref = (Inl (KeyError k0), pre' @ s # rest, h1)"
    by (simp add: process_image_number [where h=h and ref=ref, OF img] process_loop_append [OF pre] inp
        lookup_inputs_missing [OF miss])
  moreover have "process run pre h ref = (Inr ref, pre', h1)"
    by (simp add: process_image_number [where h=h and ref=ref, OF img] pre)
  ultimately show ?thesis
    using process_loop_frame [OF pre] by simp
qed

theorem process_mutates_frame_in_place_witness:
  "(let run = (\<lambda>(obj :: unit) (args :: val list). (Inr (VList [VStr ''m'', VNone]) :: error + val, obj));
        mask = \<lparr>step_name = Some ''mask'', step_class_name = Some ''Mask'', step_args = None,
                 step_kwargs = None, step_input = Some [''raw_image_nii''],
                 step_output = Some [''masked''], step_instance = Some ()\<rparr>;
        score = \<lparr>step_name = Some ''score'', step_class_name = Some ''Score'', step_args = None,
                  step_kwargs = None, step_input = Some [''masked'', ''mean''],
                  step_output = Some [''z''], step_instance = Some ()\<rparr>;
        h = (\<lambda>a :: addr. [(''image_number'', VInt 12), (''raw_image_nii'', VObj ''nii'')]);
        h1 = h(5 := [(''image_number'', VInt 12), (''raw_image_nii'', VObj ''nii''),
                     (''masked'', VStr ''m'')])
    in dict_getitem (h 5) ''image_number'' = Inr (VInt 12)
     \<and> process_loop run [mask] h 5 = (None, [mask], h1)
     \<and> find (\<lambda>k. map_of (h1 5) k = None) [''masked'', ''mean''] = Some ''mean''
     \<and> process run [mask] h 5 = (Inr 5, [mask], h1)
     \<and> isl (fst (process run [mask, score] h 5))
     \<and> snd (snd (process run [mask, score] h 5)) 5
         = [(''image_number'', VInt 12), (''raw_image_nii'', VObj ''nii''), (''masked'', VStr ''m'')]
     \<and> snd (snd (process run [mask, score] h 5)) 5 \<noteq> h 5)"
proof -
  let ?run = "\<lambda>(obj :: unit) (args :: val list). (Inr (VList [VStr ''m'', VNone]) :: error + val, obj)"
  let ?mask = "\<lparr>step_name = Some ''mask'', step_class_name = Some ''Mask'', step_args = None,
                 step_kwargs = None, step_input = Some [''raw_image_nii''],
                 step_output = Some [''masked''], step_instance = Some ()\<rparr>"
  let ?score = "\<lparr>step_name = Some ''score'', step_class_name = Some ''Score'', step_args = None,
                  step_kwargs = None, step_input = Some [''masked'', ''mean''],
                  step_output = Some [''z''], step_instance = Some ()\<rparr>"
  let ?h = "\<lambda>a :: addr. [(''image_number'', VInt 12), (''raw_image_nii'', VObj ''nii'')]"
  let ?h1 = "?h(5 := [(''image_number'', VInt 12), (''raw_image_nii'', VObj ''nii''),
                     (''masked'', VStr ''m'')])"
  have img: "dict_getitem (?h 5) ''image_number'' = Inr (VInt 12)" "- (2 ^ 31) \<le> (12::int)" "(12::int) < 2 ^ 31"
    by (simp_all add: dict_getitem_def)
  have pre: "process_loop ?run [?mask] ?h 5 = (None, [?mask], ?h1)"
    by (simp add: dict_getitem_def store_outputs_def dict_of_pairs_def normalize_output_def
          dict_setitem_def)
  have inp: "step_input ?score = Some [''masked'', ''mean'']" by simp
  have miss: "find (\<lambda>k. map_of (?h1 5) k = None) [''masked'', ''mean''] = Some ''mean''" by simp
  from process_mutates_frame_in_place [where run = ?run and h = ?h and ref = 5 and rest = "[]",
      OF img pre inp miss]
  show ?thesis
    using img pre miss by (simp add: Let_def fun_eq_iff)
qed

section \<open>Claims about Pipeline.build\<close>

text \<open>
  Claim C5.  \<open>build\<close> merges the global parameters into the keyword arguments of each
  step so that a key the step gives itself keeps the step's value and every other key of
  the global parameters is added with the global value; the constructor of the step is
  called with the merged arguments; in a build that completes every step of both lists
  has been built so.  The dict of the global parameters is the same after \<open>build\<close> as
  before, whether \<open>build\<close> completes or not, and even when a step's \<open>kwargs\<close> is that
  very dict.
\<close>

theorem build_merges_global_parameters:
  "snd (snd (build ctor self pipeline static gp h)) gp = h gp
   \<and> map_of (merge_global kwargs (h gp)) = map_of (h gp) ++ map_of kwargs
   \<and> (step_name s = Some nm \<and> step_class_name s = Some cn \<longrightarrow>
        fst (build_step ctor gp s h) =
          (case ctor cn (case step_args s of None \<Rightarrow> [] | Some a \<Rightarrow> a)
                  (merge_global (case step_kwargs s of None \<Rightarrow> [] | Some a \<Rightarrow> h a) (h gp)) of
             Inl e \<Rightarrow> Inl e
           | Inr obj \<Rightarrow> Inr (s\<lparr>step_instance := Some obj\<rparr>)))
   \<and> (build ctor self pipeline static gp h = (None, self', h') \<longrightarrow>
        (\<exists>sp p. self_static_pipeline self' = Some sp \<and> self_pipeline self' = Some p
           \<and> list_all2 (\<lambda>s s'. fst (build_step ctor gp s h) = Inr s') static sp
           \<and> list_all2 (\<lambda>s s'. fst (build_step ctor gp s h) = Inr s') pipeline p))"
proof (intro conjI impI)
  show "snd (snd (build ctor self pipeline static gp h)) gp = h gp"
  proof (cases rule: build_cases [of ctor gp static h self pipeline])
    case (static_failed e built h1)
    from build_steps_merged [OF merged_store_refl static_failed(1)] static_failed(2)
    show ?thesis by (simp add: merged_store_def)
  next
    case (pipeline_failed e built h1 built2 h2)
    from build_steps_merged [OF build_steps_merged [OF merged_store_refl pipeline_failed(1)]
        pipeline_failed(2)] pipeline_failed(3)
    show ?thesis by (simp add: merged_store_def)
  next
    case (built built h1 built2 h2)
    from build_steps_merged [OF build_steps_merged [OF merged_store_refl built(1)] built(2)] built(3)
    show ?thesis by (simp add: merged_store_def)
  qed
next
  show "map_of (merge_global kwargs (h gp)) = map_of (h gp) ++ map_of kwargs"
    by (rule map_of_merge_global)
next
  assume "step_name s = Some nm \<and> step_class_name s = Some cn"
  then show "fst (build_step ctor gp s h) =
          (case ctor cn (case step_args s of None \<Rightarrow> [] | Some a \<Rightarrow> a)
                  (merge_global (case step_kwargs s of None \<Rightarrow> [] | Some a \<Rightarrow> h a) (h gp)) of
             Inl e \<Rightarrow> Inl e
           | Inr obj \<Rightarrow> Inr (s\<lparr>step_instance := Some obj\<rparr>))"
    by (simp add: build_step_def Let_def split: option.splits sum.splits)
next
  assume ok: "build ctor self pipeline static gp h = (None, self', h')"
  show "\<exists>sp p. self_static_pipeline self' = Some sp \<and> self_pipeline self' = Some p
           \<and> list_all2 (\<lambda>s s'. fst (build_step ctor gp s h) = Inr s') static sp
           \<and> list_all2 (\<lambda>s s'. fst (build_step ctor gp s h) = Inr s') pipeline p"
  proof (cases rule: build_cases [of ctor gp static h self pipeline])
    case (static_failed e built h1)
    with ok show ?thesis by simp
  next
    case (pipeline_failed e built h1 built2 h2)
    with ok show ?thesis by simp
  next
    case (built built h1 built2 h2)
    from build_steps_done [OF merged_store_refl built(1)]
    have a: "list_all2 (\<lambda>s s'. fst (build_step ctor gp s h) = Inr s') static built" by simp
    from build_steps_done [OF build_steps_merged [OF merged_store_refl built(1)] built(2)]
    have b: "list_all2 (\<lambda>s s'. fst (build_step ctor gp s h) = Inr s') pipeline built2" by simp
    from ok built(3) have "self' = self\<lparr>self_static_pipeline := Some built,
        self_pipeline := Some built2, self_global_parameters := Some gp\<rparr>" by simp
    with a b show ?thesis by simp
  qed
qed

theorem build_merges_global_parameters_witness:
  "(let ctor = (\<lambda>(cn :: string) (args :: val list) (kw :: dict). Inr kw :: error + dict);
        h = (\<lambda>a :: addr. [])(0 := [(''surface'', VStr ''S1''), (''n_skip'', VInt 3)],
                              1 := [(''n_skip'', VInt 5)]);
        s1 = \<lparr>step_name = Some ''running'', step_class_name = Some ''RunningMeanStd'',
              step_args = None, step_kwargs = Some 1, step_input = Some [''gm''],
              step_output = Some [''mean'', ''std''], step_instance = None\<rparr>;
        s2 = \<lparr>step_name = Some ''mask'', step_class_name = Some ''ApplyMask'',
              step_args = None, step_kwargs = Some 0, step_input = Some [''volume''],
              step_output = Some [''gm''], step_instance = None\<rparr>;
        self = \<lparr>self_recording_id = ''r'', self_static_pipeline = None, self_pipeline = None,
                self_global_parameters = None, self_key = None\<rparr>;
        self' = \<lparr>self_recording_id = ''r'', self_static_pipeline = Some [],
                self_pipeline = Some
                  [s1\<lparr>step_instance := Some [(''n_skip'', VInt 5), (''surface'', VStr ''S1'')]\<rparr>,
                   s2\<lparr>step_instance := Some [(''surface'', VStr ''S1''), (''n_skip'', VInt 3)]\<rparr>],
                self_global_parameters = Some 0, self_key = None\<rparr>;
        h' = h(1 := [(''n_skip'', VInt 5), (''surface'', VStr ''S1'')])
    in step_name s1 = Some ''running'' \<and> step_class_name s1 = Some ''RunningMeanStd''
     \<and> build ctor self [s1, s2] [] 0 h = (None, self', h')
     \<and> h' 0 = h 0
     \<and> map_of (merge_global (h 1) (h 0)) ''n_skip'' = Some (VInt 5)
     \<and> fst (build_step ctor 0 s1 h)
         = Inr (s1\<lparr>step_instance := Some [(''n_skip'', VInt 5), (''surface'', VStr ''S1'')]\<rparr>))"
proof -
  let ?ctor = "\<lambda>(cn :: string) (args :: val list) (kw :: dict). Inr kw :: error + dict"
  let ?h = "(\<lambda>a :: addr. [])(0 := [(''surface'', VStr ''S1''), (''n_skip'', VInt 3)],
                              1 := [(''n_skip'', VInt 5)])"
  let ?s1 = "\<lparr>step_name = Some ''running'', step_class_name = Some ''RunningMeanStd'',
              step_args = None, step_kwargs = Some 1, step_input = Some [''gm''],
              step_output = Some [''mean'', ''std''], step_instance = None :: dict option\<rparr>"
  let ?s2 = "\<lparr>step_name = Some ''mask'', step_class_name = Some ''ApplyMask'',
              step_args = None, step_kwargs = Some 0, step_input = Some [''volume''],
              step_output = Some [''gm''], step_instance = None :: dict option\<rparr>"
  let ?self = "\<lparr>self_recording_id = ''r'', self_static_pipeline = None, self_pipeline = None,
                self_global_parameters = None, self_key = None\<rparr> :: dict pipeline_obj"
  let ?self' = "\<lparr>self_recording_id = ''r'', self_static_pipeline = Some [],
                self_pipeline = Some
                  [?s1\<lparr>step_instance := Some [(''n_skip'', VInt 5), (''surface'', VStr ''S1'')]\<rparr>,
                   ?s2\<lparr>step_instance := Some [(''surface'', VStr ''S1''), (''n_skip'', VInt 3)]\<rparr>],
                self_global_parameters = Some 0, self_key = None\<rparr>"
  let ?h' = "?h(1 := [(''n_skip'', VInt 5), (''surface'', VStr ''S1'')])"
  have nm: "step_name ?s1 = Some ''running'' \<and> step_class_name ?s1 = Some ''RunningMeanStd''"
    by simp
  have b: "build ?ctor ?self [?s1, ?s2] [] 0 ?h = (None, ?self', ?h')"
    by (simp add: build_def build_step_def Let_def dict_setitem_def dict_get_def fun_eq_iff)
  note t = build_merges_global_parameters [where ctor = ?ctor and self = ?self
      and pipeline = "[?s1, ?s2]" and static = "[]" and gp = 0 and h = ?h and kwargs = "?h 1"
      and s = ?s1 and nm = "''running''" and cn = "''RunningMeanStd''" and self' = ?self' and h' = ?h']
  from t b have g: "?h' 0 = ?h 0" by simp
  from t have m: "map_of (merge_global (?h 1) (?h 0)) = map_of (?h 0) ++ map_of (?h 1)" by blast
  from t nm have r: "fst (build_step ?ctor 0 ?s1 ?h) =
          (case ?ctor ''RunningMeanStd'' (case step_args ?s1 of None \<Rightarrow> [] | Some a \<Rightarrow> a)
                  (merge_global (case step_kwargs ?s1 of None \<Rightarrow> [] | Some a \<Rightarrow> ?h a) (?h 0)) of
             Inl e \<Rightarrow> Inl e
           | Inr obj \<Rightarrow> Inr (?s1\<lparr>step_instance := Some obj\<rparr>))" by blast
  have r': "fst (build_step ?ctor 0 ?s1 ?h)
         = Inr (?s1\<lparr>step_instance := Some [(''n_skip'', VInt 5), (''surface'', VStr ''S1'')]\<rparr>)"
    unfolding r by (simp add: dict_setitem_def dict_get_def)
  have m': "map_of (merge_global (?h 1) (?h 0)) ''n_skip'' = Some (VInt 5)"
    unfolding m by simp
  show ?thesis
    unfolding Let_def using nm b g m' r' by (intro conjI) simp_all
qed

text \<open>
  Claim C6 says that a failed construction raises a \<open>StepConstructionError\<close> and that no
  partial pipeline is ever produced or retained.  \<open>build\<close> called on an existing object
  with a second step whose class cannot be loaded ends with the loader's own exception,
  and the object then holds the first step alone as its pipeline, on which \<open>process\<close>
  runs.
\<close>

theorem build_failure_keeps_partial_pipeline_counterexample:
  "(let ctor = (\<lambda>(cn :: string) (args :: val list) (kw :: dict).
                  if cn = ''Missing'' then Inl (Raised ''ImportError'') else Inr cn);
        run = (\<lambda>(obj :: string) (args :: val list). (Inr (VStr ''m'') :: error + val, obj));
        p1 = \<lparr>step_name = Some ''mask'', step_class_name = Some ''ApplyMask'',
              step_args = None, step_kwargs = None, step_input = Some [''volume''],
              step_output = Some [''gm''], step_instance = None\<rparr>;
        p2 = \<lparr>step_name = Some ''detrend'', step_class_name = Some ''Missing'',
              step_args = None, step_kwargs = None, step_input = Some [''gm''],
              step_output = Some [''gm_detrend''], step_instance = None\<rparr>;
        self = \<lparr>self_recording_id = ''r'', self_static_pipeline = Some [], self_pipeline = Some [],
                self_global_parameters = Some 0, self_key = Some ''pipeline:1''\<rparr>;
        h = (\<lambda>a :: addr. []);
        frame = (\<lambda>a :: addr. [(''image_number'', VInt 0), (''volume'', VObj ''v'')])
    in build ctor self [p1, p2] [] 0 h
         = (Some (Raised ''ImportError''),
            self\<lparr>self_pipeline := Some [p1\<lparr>step_instance := Some ''ApplyMask''\<rparr>]\<rparr>, h)
     \<and> process run [p1\<lparr>step_instance := Some ''ApplyMask''\<rparr>] frame 7
         = (Inr 7, [p1\<lparr>step_instance := Some ''ApplyMask''\<rparr>],
            frame(7 := [(''image_number'', VInt 0), (''volume'', VObj ''v''), (''gm'', VStr ''m'')])))"
  by (simp add: Let_def build_def build_step_def process_def dict_getitem_def struct_pack_i_def
        store_outputs_def dict_of_pairs_def normalize_output_def dict_setitem_def fun_eq_iff)

text \<open>
  Claim C6, amended.  When the construction of a step of either list fails, \<open>build\<close>
  ends with the exception of the first step that fails, static steps first, passed on
  unchanged, and so does the constructor of \<open>Pipeline\<close>, which runs \<open>build\<close>: the
  caller of the constructor receives the exception and no \<open>Pipeline\<close> object.  The
  object that \<open>build\<close> was called on is not rolled back: its \<open>static_pipeline\<close> holds
  the static steps built before the failure, its \<open>pipeline\<close> the pipeline steps built
  before the failure (or what it held before, when a static step failed), and its
  \<open>global_parameters\<close> is not assigned.
\<close>

theorem build_failure_propagates:
  assumes s: "s \<in> set (static @ pipeline)" and fail: "fst (build_step ctor gp s h) = Inl e"
  shows "(\<exists>e'. fst (Pipeline_init ctor now oid pipeline gp static recording_id h) = Inl e'
            \<and> fst (build ctor self pipeline static gp h) = Some e'
            \<and> (\<exists>t\<in>set (static @ pipeline). fst (build_step ctor gp t h) = Inl e'))
       \<and> (\<forall>pre post. static @ pipeline = pre @ s # post
              \<and> (\<forall>t\<in>set pre. \<exists>t'. fst (build_step ctor gp t h) = Inr t') \<longrightarrow>
            fst (Pipeline_init ctor now oid pipeline gp static recording_id h) = Inl e
          \<and> (\<exists>self' h'. build ctor self pipeline static gp h = (Some e, self', h')
                \<and> (\<exists>sp. self_static_pipeline self' = Some sp
                       \<and> list_all2 (\<lambda>s s'. fst (build_step ctor gp s h) = Inr s')
                            (take (length pre) static) sp)
                \<and> (if length pre < length static
                    then self_pipeline self' = self_pipeline self
                    else (\<exists>p. self_pipeline self' = Some p
                            \<and> list_all2 (\<lambda>s s'. fst (build_step ctor gp s h) = Inr s')
                                 (take (length pre - length static) pipeline) p))
                \<and> self_global_parameters self' = self_global_parameters self))"
proof (intro conjI allI impI)
  have init: "fst (Pipeline_init ctor now oid pipeline gp static recording_id h) = Inl e'"
    if "fst (build ctor self0 pipeline static gp h) = Some e'" for e' self0
    using that by (auto simp: Pipeline_init_def Let_def build_def split: prod.splits option.splits)
  {
    fix pre post
    assume a: "static @ pipeline = pre @ s # post
              \<and> (\<forall>t\<in>set pre. \<exists>t'. fst (build_step ctor gp t h) = Inr t')"
    then have sp: "static @ pipeline = pre @ s # post"
      and ok: "\<forall>t\<in>set pre. \<exists>t'. fst (build_step ctor gp t h) = Inr t'" by blast+
    from build_first_failure_object [OF sp ok fail, of self]
    show "\<exists>self' h'. build ctor self pipeline static gp h = (Some e, self', h')
                \<and> (\<exists>sp. self_static_pipeline self' = Some sp
                       \<and> list_all2 (\<lambda>s s'. fst (build_step ctor gp s h) = Inr s')
                            (take (length pre) static) sp)
                \<and> (if length pre < length static
                    then self_pipeline self' = self_pipeline self
                    else (\<exists>p. self_pipeline self' = Some p
                            \<and> list_all2 (\<lambda>s s'. fst (build_step ctor gp s h) = Inr s')
                                 (take (length pre - length static) pipeline) p))
                \<and> self_global_parameters self' = self_global_parameters self" .
    from build_first_failure [OF sp ok fail, of self]
    have b: "fst (build ctor self pipeline static gp h) = Some e" .
    from init [OF b]
    show "fst (Pipeline_init ctor now oid pipeline gp static recording_id h) = Inl e" .
  }
  show "\<exists>e'. fst (Pipeline_init ctor now oid pipeline gp static recording_id h) = Inl e'
            \<and> fst (build ctor self pipeline static gp h) = Some e'
            \<and> (\<exists>t\<in>set (static @ pipeline). fst (build_step ctor gp t h) = Inl e')"
  proof (cases rule: build_cases [of ctor gp static h self pipeline])
    case (static_failed e' built h1)
    from build_steps_failed [OF merged_store_refl static_failed(1)]
    have "\<exists>t\<in>set (static @ pipeline). fst (build_step ctor gp t h) = Inl e'" by auto
    moreover have "fst (build ctor self pipeline static gp h) = Some e'"
      using static_failed(2) by simp
    ultimately show ?thesis using init [of self e'] by blast
  next
    case (pipeline_failed e' built h1 built2 h2)
    from build_steps_failed [OF build_steps_merged [OF merged_store_refl pipeline_failed(1)]
        pipeline_failed(2)]
    have "\<exists>t\<in>set (static @ pipeline). fst (build_step ctor gp t h) = Inl e'" by auto
    moreover have "fst (build ctor self pipeline static gp h) = Some e'"
      using pipeline_failed(3) by simp
    ultimately show ?thesis using init [of self e'] by blast
  next
    case (built built h1 built2 h2)
    from build_steps_done [OF merged_store_refl built(1)]
    have a: "list_all2 (\<lambda>s s'. fst (build_step ctor gp s h) = Inr s') static built" by simp
    from build_steps_done [OF build_steps_merged [OF merged_store_refl built(1)] built(2)]
    have b: "list_all2 (\<lambda>s s'. fst (build_step ctor gp s h) = Inr s') pipeline built2" by simp
    from a b have "\<forall>t\<in>set (static @ pipeline). \<exists>t'. fst (build_step ctor gp t h) = Inr t'"
      by (auto simp: list_all2_conv_all_nth in_set_conv_nth)
    with s obtain t' where "fst (build_step ctor gp s h) = Inr t'" by blast
    with fail show ?thesis by simp
  qed
qed

theorem build_failure_propagates_witness:
  "(let ctor = (\<lambda>(cn :: string) (args :: val list) (kw :: dict).
                  if cn = ''Missing'' then Inl (Raised ''ImportError'') else Inr cn);
        h = (\<lambda>a :: addr. []);
        st = \<lparr>step_name = Some ''save'', step_class_name = Some ''SaveNifti'',
              step_args = None, step_kwargs = None, step_input = None,
              step_output = None, step_instance = None\<rparr>;
        p1 = \<lparr>step_name = Some ''mask'', step_class_name = Some ''ApplyMask'',
              step_args = None, step_kwargs = None, step_input = Some [''volume''],
              step_output = Some [''gm''], step_instance = None\<rparr>;
        p2 = \<lparr>step_name = Some ''detrend'', step_class_name = Some ''Missing'',
              step_args = None, step_kwargs = None, step_input = Some [''gm''],
              step_output = Some [''gm_detrend''], step_instance = None\<rparr>;
        p3 = \<lparr>step_name = Some ''zscore'', step_class_name = Some ''ZScore'',
              step_args = None, step_kwargs = None, step_input = Some [''gm_detrend''],
              step_output = Some [''z''], step_instance = None\<rparr>;
        self = \<lparr>self_recording_id = ''r'', self_static_pipeline = None, self_pipeline = None,
                self_global_parameters = None, self_key = None\<rparr>
    in p2 \<in> set ([st] @ [p1, p2, p3])
     \<and> fst (build_step ctor 0 p2 h) = Inl (Raised ''ImportError'')
     \<and> [st] @ [p1, p2, p3] = [st, p1] @ p2 # [p3]
     \<and> fst (build_step ctor 0 st h) = Inr (st\<lparr>step_instance := Some ''SaveNifti''\<rparr>)
     \<and> fst (build_step ctor 0 p1 h) = Inr (p1\<lparr>step_instance := Some ''ApplyMask''\<rparr>)
     \<and> fst (Pipeline_init ctor ''20260101_1200'' ''1'' [p1, p2, p3] 0 [st] None h)
         = Inl (Raised ''ImportError'')
     \<and> build ctor self [p1, p2, p3] [st] 0 h
         = (Some (Raised ''ImportError''),
            self\<lparr>self_static_pipeline := Some [st\<lparr>step_instance := Some ''SaveNifti''\<rparr>],
                 self_pipeline := Some [p1\<lparr>step_instance := Some ''ApplyMask''\<rparr>]\<rparr>, h))"
proof -
  let ?ctor = "\<lambda>(cn :: string) (args :: val list) (kw :: dict).
                  if cn = ''Missing'' then Inl (Raised ''ImportError'') else Inr cn"
  let ?h = "\<lambda>a :: addr. [] :: dict"
  let ?st = "\<lparr>step_name = Some ''save'', step_class_name = Some ''SaveNifti'',
              step_args = None, step_kwargs = None, step_input = None,
              step_output = None, step_instance = None :: string option\<rparr>"
  let ?p1 = "\<lparr>step_name = Some ''mask'', step_class_name = Some ''ApplyMask'',
              step_args = None, step_kwargs = None, step_input = Some [''volume''],
              step_output = Some [''gm''], step_instance = None :: string option\<rparr>"
  let ?p2 = "\<lparr>step_name = Some ''detrend'', step_class_name = Some ''Missing'',
              step_args = None, step_kwargs = None, step_input = Some [''gm''],
              step_output = Some [''gm_detrend''], step_instance = None :: string option\<rparr>"
  let ?p3 = "\<lparr>step_name = Some ''zscore'', step_class_name = Some ''ZScore'',
              step_args = None, step_kwargs = None, step_input = Some [''gm_detrend''],
              step_output = Some [''z''], step_instance = None :: string option\<rparr>"
  let ?self = "\<lparr>self_recording_id = ''r'', self_static_pipeline = None, self_pipeline = None,
                self_global_parameters = None, self_key = None\<rparr> :: string pipeline_obj"
  have s: "?p2 \<in> set ([?st] @ [?p1, ?p2, ?p3])" by simp
  have fail: "fst (build_step ?ctor 0 ?p2 ?h) = Inl (Raised ''ImportError'')"
    by (simp add: build_step_def)
  have sp: "[?st] @ [?p1, ?p2, ?p3] = [?st, ?p1] @ ?p2 # [?p3]" by simp
  have ok1: "fst (build_step ?ctor 0 ?st ?h) = Inr (?st\<lparr>step_instance := Some ''SaveNifti''\<rparr>)"
    and ok2: "fst (build_step ?ctor 0 ?p1 ?h) = Inr (?p1\<lparr>step_instance := Some ''ApplyMask''\<rparr>)"
    by (simp_all add: build_step_def)
  have ok: "\<forall>t\<in>set [?st, ?p1]. \<exists>t'. fst (build_step ?ctor 0 t ?h) = Inr t'"
    using ok1 ok2 by simp
  note t = build_failure_propagates [OF s fail, of "''20260101_1200''" "''1''" None ?self]
  from t sp ok
  have ev: "fst (Pipeline_init ?ctor ''20260101_1200'' ''1'' [?p1, ?p2, ?p3] 0 [?st] None ?h)
         = Inl (Raised ''ImportError'')"
    by blast
  have b: "build ?ctor ?self [?p1, ?p2, ?p3] [?st] 0 ?h
         = (Some (Raised ''ImportError''),
            ?self\<lparr>self_static_pipeline := Some [?st\<lparr>step_instance := Some ''SaveNifti''\<rparr>],
                 self_pipeline := Some [?p1\<lparr>step_instance := Some ''ApplyMask''\<rparr>]\<rparr>, ?h)"
    by (simp add: build_def build_step_def)
  show ?thesis
    unfolding Let_def using s fail sp ok1 ok2 ev b by (intro conjI)
qed

section \<open>Claims about the steps\<close>

text \<open>
  Claim C3.  The first call of \<open>IncrementalMeanStd.run\<close> (one on an object without
  \<open>data\<close>) returns \<open>(None, None)\<close> and starts the buffer with the flattened sample.
  Every later call appends its flattened sample and returns the mean and the standard
  deviation, column by column, over all the samples received so far, in the shape of the
  first sample.  Over finite numbers these are the population mean and the population
  standard deviation.  After two samples the mean is their average and the standard
  deviation half their distance, element by element.  The later samples are taken to have
  as many elements as the first.
\<close>

theorem IncrementalMeanStd_run_history:
  assumes wf: "wf_array a0" and same: "\<forall>a\<in>set as. wf_array a \<and> np_size a = np_size a0"
  shows "fst (IncrementalMeanStd_runs IncrementalMeanStd_init (a0 # as)) =
           Inr (VTuple [VNone, VNone]) #
           map (\<lambda>k. Inr (VTuple
                  [VArray \<lparr>shape = shape a0,
                          data = axis0 np_mean (np_size a0) (map data (take (k + 2) (a0 # as)))\<rparr>,
                   VArray \<lparr>shape = shape a0,
                          data = axis0 np_std (np_size a0) (map data (take (k + 2) (a0 # as)))\<rparr>]))
               [0..<length as]
       \<and> snd (IncrementalMeanStd_runs IncrementalMeanStd_init (a0 # as)) =
           \<lparr>ims_array_shape = Some (shape a0),
            ims_data = Some \<lparr>buf_size = np_size a0, buf_rows = map data (a0 # as)\<rparr>\<rparr>
       \<and> (\<forall>self. ims_data self = None \<longrightarrow>
             IncrementalMeanStd_run self a0 =
               (Inr (VTuple [VNone, VNone]),
                self\<lparr>ims_array_shape := Some (shape a0),
                     ims_data := Some \<lparr>buf_size = np_size a0, buf_rows = [data a0]\<rparr>\<rparr>))
       \<and> (\<forall>xs. xs \<noteq> [] \<longrightarrow>
             np_mean (map Fin xs) = Fin (sum_list xs / real (length xs))
           \<and> np_std (map Fin xs) =
               Fin (sqrt (sum_list (map (\<lambda>x. (x - sum_list xs / real (length xs))\<^sup>2) xs)
                            / real (length xs))))
       \<and> (\<forall>shp xs ys. prod_list shp = length xs \<and> length ys = length xs \<longrightarrow>
             fst (IncrementalMeanStd_runs IncrementalMeanStd_init
                    [\<lparr>shape = shp, data = map Fin xs\<rparr>, \<lparr>shape = shp, data = map Fin ys\<rparr>]) =
               [Inr (VTuple [VNone, VNone]),
                Inr (VTuple
                  [VArray \<lparr>shape = shp, data = map2 (\<lambda>x y. Fin ((x + y) / 2)) xs ys\<rparr>,
                   VArray \<lparr>shape = shp, data = map2 (\<lambda>x y. Fin (\<bar>x - y\<bar> / 2)) xs ys\<rparr>])])"
proof -
  have runs: "IncrementalMeanStd_runs IncrementalMeanStd_init (b0 # bs) =
      (Inr (VTuple [VNone, VNone]) #
       map (\<lambda>k. Inr (VTuple
              [VArray \<lparr>shape = shape b0,
                      data = axis0 np_mean (np_size b0) (map data (take (k + 2) (b0 # bs)))\<rparr>,
               VArray \<lparr>shape = shape b0,
                      data = axis0 np_std (np_size b0) (map data (take (k + 2) (b0 # bs)))\<rparr>]))
           [0..<length bs],
       \<lparr>ims_array_shape = Some (shape b0),
        ims_data = Some \<lparr>buf_size = np_size b0, buf_rows = map data (b0 # bs)\<rparr>\<rparr>)"
    if wf0: "wf_array b0" and rest: "\<forall>a\<in>set bs. wf_array a \<and> np_size a = np_size b0"
    for b0 bs
  proof -
    let ?b = "\<lparr>buf_size = np_size b0, buf_rows = [data b0]\<rparr>"
    let ?self1 = "IncrementalMeanStd_init\<lparr>ims_array_shape := Some (shape b0), ims_data := Some ?b\<rparr>"
    have first: "IncrementalMeanStd_run IncrementalMeanStd_init b0
        = (Inr (VTuple [VNone, VNone]), ?self1)"
      by (rule IncrementalMeanStd_first_call) (simp_all add: IncrementalMeanStd_init_def wf0)
    have len: "\<forall>a\<in>set bs. length (data a) = buf_size ?b"
      using rest by (simp add: wf_array_def np_size_def)
    have later: "IncrementalMeanStd_runs ?self1 bs =
           (map (\<lambda>k. Inr (VTuple
                  [VArray \<lparr>shape = shape b0,
                          data = axis0 np_mean (buf_size ?b) (buf_rows ?b @ map data (take (Suc k) bs))\<rparr>,
                   VArray \<lparr>shape = shape b0,
                          data = axis0 np_std (buf_size ?b) (buf_rows ?b @ map data (take (Suc k) bs))\<rparr>]))
               [0..<length bs],
            ?self1\<lparr>ims_data := Some (?b\<lparr>buf_rows := buf_rows ?b @ map data bs\<rparr>)\<rparr>)"
      by (rule IncrementalMeanStd_runs_later [OF _ _ _ len]) (simp_all add: np_size_def)
    show ?thesis
      by (simp add: first later; simp add: IncrementalMeanStd_init_def)
  qed
  have pair: "fst (IncrementalMeanStd_runs IncrementalMeanStd_init
                    [\<lparr>shape = shp, data = map Fin xs\<rparr>, \<lparr>shape = shp, data = map Fin ys\<rparr>]) =
               [Inr (VTuple [VNone, VNone]),
                Inr (VTuple
                  [VArray \<lparr>shape = shp, data = map2 (\<lambda>x y. Fin ((x + y) / 2)) xs ys\<rparr>,
                   VArray \<lparr>shape = shp, data = map2 (\<lambda>x y. Fin (\<bar>x - y\<bar> / 2)) xs ys\<rparr>])]"
    if "prod_list shp = length xs \<and> length ys = length xs" for shp xs ys
  proof -
    let ?a = "\<lparr>shape = shp, data = map Fin xs\<rparr>" and ?b = "\<lparr>shape = shp, data = map Fin ys\<rparr>"
    have "wf_array ?a" and "\<forall>a\<in>set [?b]. wf_array a \<and> np_size a = np_size ?a"
      using that by (simp_all add: wf_array_def np_size_def)
    from runs [OF this] that show ?thesis
      by (simp add: np_size_def axis0_pair np_mean_pair np_std_pair)
  qed
  show ?thesis
    using runs [OF wf same] IncrementalMeanStd_first_call [OF _ wf] np_mean_Fin np_std_Fin pair
    by (intro conjI allI impI) simp_all
qed

theorem IncrementalMeanStd_run_history_witness:
  "wf_array \<lparr>shape = [2, 1], data = [Fin 1, Fin 2]\<rparr>
   \<and> wf_array \<lparr>shape = [2, 1], data = [Fin 3, Fin 6]\<rparr>
   \<and> np_size \<lparr>shape = [2, 1], data = [Fin 3, Fin 6]\<rparr>
       = np_size \<lparr>shape = [2, 1], data = [Fin 1, Fin 2]\<rparr>
   \<and> wf_array \<lparr>shape = [2], data = [Fin 5, Fin 1]\<rparr>
   \<and> np_size \<lparr>shape = [2], data = [Fin 5, Fin 1]\<rparr>
       = np_size \<lparr>shape = [2, 1], data = [Fin 1, Fin 2]\<rparr>
   \<and> fst (IncrementalMeanStd_runs IncrementalMeanStd_init
            [\<lparr>shape = [2, 1], data = [Fin 1, Fin 2]\<rparr>,
             \<lparr>shape = [2, 1], data = [Fin 3, Fin 6]\<rparr>,
             \<lparr>shape = [2], data = [Fin 5, Fin 1]\<rparr>])
       = [Inr (VTuple [VNone, VNone]),
          Inr (VTuple [VArray \<lparr>shape = [2, 1], data = [Fin 2, Fin 4]\<rparr>,
                       VArray \<lparr>shape = [2, 1], data = [Fin 1, Fin 2]\<rparr>]),
          Inr (VTuple [VArray \<lparr>shape = [2, 1], data = [Fin 3, Fin 3]\<rparr>,
                       VArray \<lparr>shape = [2, 1],
                               data = [Fin (sqrt (8 / 3)), Fin (sqrt (14 / 3))]\<rparr>])]"
proof -
  let ?a0 = "\<lparr>shape = [2, 1], data = [Fin 1, Fin 2]\<rparr>"
  let ?a1 = "\<lparr>shape = [2, 1], data = [Fin 3, Fin 6]\<rparr>"
  let ?a2 = "\<lparr>shape = [2], data = [Fin 5, Fin 1]\<rparr>"
  have wf: "wf_array ?a0" by (simp add: wf_array_def)
  have same: "\<forall>a\<in>set [?a1, ?a2]. wf_array a \<and> np_size a = np_size ?a0"
    by (simp add: wf_array_def np_size_def)
  have up: "[0..<2] = [0, Suc 0]" by (simp add: upt_conv_Cons)
  have m2: "axis0 np_mean 2 [[Fin 1, Fin 2], [Fin 3, Fin 6]] = [Fin 2, Fin 4]"
    by (simp add: axis0_def up np_mean_def np_sum_def)
  have s2: "axis0 np_std 2 [[Fin 1, Fin 2], [Fin 3, Fin 6]] = [Fin 1, Fin 2]"
    using np_std_pair [of 1 3] np_std_pair [of 2 6] by (simp add: axis0_def up)
  have m3: "axis0 np_mean 2 [[Fin 1, Fin 2], [Fin 3, Fin 6], [Fin 5, Fin 1]] = [Fin 3, Fin 3]"
    by (simp add: axis0_def up np_mean_def np_sum_def)
  have s3: "axis0 np_std 2 [[Fin 1, Fin 2], [Fin 3, Fin 6], [Fin 5, Fin 1]]
      = [Fin (sqrt (8 / 3)), Fin (sqrt (14 / 3))]"
    using np_std_Fin [of "[1, 3, 5]"] np_std_Fin [of "[2, 6, 1]"] by (simp add: axis0_def up)
  from IncrementalMeanStd_run_history [OF wf same]
  have "fst (IncrementalMeanStd_runs IncrementalMeanStd_init [?a0, ?a1, ?a2]) =
           Inr (VTuple [VNone, VNone]) #
           map (\<lambda>k. Inr (VTuple
                  [VArray \<lparr>shape = shape ?a0,
                          data = axis0 np_mean (np_size ?a0) (map data (take (k + 2) [?a0, ?a1, ?a2]))\<rparr>,
                   VArray \<lparr>shape = shape ?a0,
                          data = axis0 np_std (np_size ?a0) (map data (take (k + 2) [?a0, ?a1, ?a2]))\<rparr>]))
               [0..<length [?a1, ?a2]]"
    by blast
  then have "fst (IncrementalMeanStd_runs IncrementalMeanStd_init [?a0, ?a1, ?a2])
       = [Inr (VTuple [VNone, VNone]),
          Inr (VTuple [VArray \<lparr>shape = [2, 1], data = [Fin 2, Fin 4]\<rparr>,
                       VArray \<lparr>shape = [2, 1], data = [Fin 1, Fin 2]\<rparr>]),
          Inr (VTuple [VArray \<lparr>shape = [2, 1], data = [Fin 3, Fin 3]\<rparr>,
                       VArray \<lparr>shape = [2, 1],
                               data = [Fin (sqrt (8 / 3)), Fin (sqrt (14 / 3))]\<rparr>])]"
    by (simp add: up np_size_def m2 s2 m3 s3)
  then show ?thesis using wf same by (simp add: np_size_def)
qed

text \<open>
  Claim C4.  A call of \<open>RunningMeanStd.run\<close> with \<open>image_number < n_skip\<close> returns
  zeros and ones of the size of the input and leaves the object as it is, whatever its
  state.  A call with \<open>image_number \<ge> n_skip\<close>, on an object created with \<open>n \<ge> 1\<close> and
  after any calls with vectors of the same length, makes the window the previous window
  without its first row and with the input as last row, the window before the first such
  call being not-a-number throughout; it returns the column-wise mean and standard
  deviation over the entries that are not not-a-number.  When the accepted samples are
  finite, these are the average and the population standard deviation of the last
  \<open>min k n\<close> of the \<open>k\<close> accepted samples, also while \<open>k < n\<close>.
\<close>

theorem RunningMeanStd_run_window:
  assumes n: "1 \<le> n" and len: "\<forall>c\<in>set calls. length (fst c) = length inp"
  shows "(\<forall>st :: rms. i < rms_n_skip st \<longrightarrow>
            RunningMeanStd_run st inp (Some i) =
              (Inr (VTuple [VArray (vector (replicate (length inp) (Fin 0))),
                            VArray (vector (replicate (length inp) (Fin 1)))]), st))
       \<and> (\<not> i < n_skip \<longrightarrow>
            (let self = snd (RunningMeanStd_runs (RunningMeanStd_init n n_skip) calls);
                 w = window_after (nat n) (length inp) (accepted n_skip calls @ [inp]);
                 mean = axis0 np_nanmean (length inp) w;
                 std = axis0 np_nanstd (length inp) w
             in RunningMeanStd_run self inp (Some i) =
                  (Inr (VTuple [VArray (vector mean), VArray (vector std)]),
                   self\<lparr>rms_samples := Some w, rms_mean := Some mean, rms_std := Some std\<rparr>)
              \<and> w = tl (window_after (nat n) (length inp) (accepted n_skip calls)) @ [inp]
              \<and> (\<forall>xss. accepted n_skip calls @ [inp] = map (map Fin) xss \<longrightarrow>
                   (let recent = drop (length xss - nat n) xss
                    in recent \<noteq> []
                     \<and> mean = map (\<lambda>j. Fin (sum_list (map (\<lambda>xs. xs ! j) recent)
                                               / real (length recent))) [0..<length inp]
                     \<and> std = map (\<lambda>j. Fin (sqrt
                                 (sum_list (map (\<lambda>x. (x - sum_list (map (\<lambda>xs. xs ! j) recent)
                                                            / real (length recent))\<^sup>2)
                                              (map (\<lambda>xs. xs ! j) recent))
                                   / real (length recent)))) [0..<length inp]))))
       \<and> window_after (nat n) (length inp) [] = replicate (nat n) (replicate (length inp) NaN)"
proof (intro conjI allI impI)
  fix st :: rms assume "i < rms_n_skip st"
  then show "RunningMeanStd_run st inp (Some i) =
              (Inr (VTuple [VArray (vector (replicate (length inp) (Fin 0))),
                            VArray (vector (replicate (length inp) (Fin 1)))]), st)"
    by (rule RunningMeanStd_skipped_call)
next
  show "window_after (nat n) (length inp) [] = replicate (nat n) (replicate (length inp) NaN)"
    by (rule window_after_Nil)
next
  assume i: "\<not> i < n_skip"
  let ?sz = "length inp"
  let ?self = "snd (RunningMeanStd_runs (RunningMeanStd_init n n_skip) calls)"
  let ?seen = "accepted n_skip calls"
  let ?w = "window_after (nat n) ?sz (?seen @ [inp])"
  have n1: "1 \<le> nat n" using n by simp
  have inv: "rms_inv n n_skip ?sz ?seen ?self"
    using RunningMeanStd_runs_inv [OF n len _ rms_inv_init, of n_skip] by simp
  have rows: "\<forall>r\<in>set ?seen. length r = ?sz" by (rule accepted_rows [OF len])
  note call = RunningMeanStd_accepted_call [OF n refl rows inv i]
  have fin: "let recent = drop (length xss - nat n) xss
             in recent \<noteq> []
              \<and> axis0 np_nanmean ?sz ?w
                   = map (\<lambda>j. Fin (sum_list (map (\<lambda>xs. xs ! j) recent) / real (length recent)))
                       [0..<?sz]
              \<and> axis0 np_nanstd ?sz ?w
                   = map (\<lambda>j. Fin (sqrt
                                 (sum_list (map (\<lambda>x. (x - sum_list (map (\<lambda>xs. xs ! j) recent)
                                                            / real (length recent))\<^sup>2)
                                              (map (\<lambda>xs. xs ! j) recent))
                                   / real (length recent)))) [0..<?sz]"
    if eq: "?seen @ [inp] = map (map Fin) xss" for xss
  proof -
    have ne: "xss \<noteq> []" using eq by auto
    have "\<forall>r\<in>set (map (map Fin) xss). length r = ?sz"
      using rows unfolding eq [symmetric] by simp
    then have r: "\<forall>xs\<in>set xss. length xs = ?sz" by simp
    show ?thesis
      unfolding Let_def eq
      using window_finite_stats [OF n1 ne r] by simp
  qed
  show "let self = ?self; w = ?w;
                 mean = axis0 np_nanmean (length inp) w;
                 std = axis0 np_nanstd (length inp) w
             in RunningMeanStd_run self inp (Some i) =
                  (Inr (VTuple [VArray (vector mean), VArray (vector std)]),
                   self\<lparr>rms_samples := Some w, rms_mean := Some mean, rms_std := Some std\<rparr>)
              \<and> w = tl (window_after (nat n) (length inp) (accepted n_skip calls)) @ [inp]
              \<and> (\<forall>xss. accepted n_skip calls @ [inp] = map (map Fin) xss \<longrightarrow>
                   (let recent = drop (length xss - nat n) xss
                    in recent \<noteq> []
                     \<and> mean = map (\<lambda>j. Fin (sum_list (map (\<lambda>xs. xs ! j) recent)
                                               / real (length recent))) [0..<length inp]
                     \<and> std = map (\<lambda>j. Fin (sqrt
                                 (sum_list (map (\<lambda>x. (x - sum_list (map (\<lambda>xs. xs ! j) recent)
                                                            / real (length recent))\<^sup>2)
                                              (map (\<lambda>xs. xs ! j) recent))
                                   / real (length recent)))) [0..<length inp]))"
    unfolding Let_def
    using call window_after_snoc [OF n1, of ?sz ?seen inp] fin [unfolded Let_def]
    by blast
qed

theorem RunningMeanStd_run_window_witness:
  "(1::int) \<le> 3
   \<and> length (fst ([Fin 9, Fin 9], 0::int)) = length [Fin 5, Fin 30]
   \<and> length (fst ([Fin 7, Fin 7], 1::int)) = length [Fin 5, Fin 30]
   \<and> length (fst ([Fin 1, Fin 10], 2::int)) = length [Fin 5, Fin 30]
   \<and> length (fst ([Fin 3, Fin 20], 3::int)) = length [Fin 5, Fin 30]
   \<and> (0::int) < rms_n_skip (RunningMeanStd_init 3 2)
   \<and> RunningMeanStd_run (RunningMeanStd_init 3 2) [Fin 5, Fin 30] (Some 0)
       = (Inr (VTuple [VArray (vector [Fin 0, Fin 0]), VArray (vector [Fin 1, Fin 1])]),
          RunningMeanStd_init 3 2)
   \<and> \<not> (4::int) < 2
   \<and> accepted 2 [([Fin 9, Fin 9], 0), ([Fin 7, Fin 7], 1), ([Fin 1, Fin 10], 2),
                  ([Fin 3, Fin 20], 3)] @ [[Fin 5, Fin 30]]
       = map (map Fin) [[1, 10], [3, 20], [5, 30]]
   \<and> fst (RunningMeanStd_run
             (snd (RunningMeanStd_runs (RunningMeanStd_init 3 2)
                     [([Fin 9, Fin 9], 0), ([Fin 7, Fin 7], 1), ([Fin 1, Fin 10], 2),
                      ([Fin 3, Fin 20], 3)]))
             [Fin 5, Fin 30] (Some 4))
       = Inr (VTuple [VArray (vector [Fin 3, Fin 20]),
                      VArray (vector [Fin (sqrt (8 / 3)), Fin (sqrt (200 / 3))])])"
proof -
  let ?calls = "[([Fin 9, Fin 9], 0::int), ([Fin 7, Fin 7], 1), ([Fin 1, Fin 10], 2),
                ([Fin 3, Fin 20], 3)]"
  let ?inp = "[Fin 5, Fin 30]"
  let ?self = "snd (RunningMeanStd_runs (RunningMeanStd_init 3 2) ?calls)"
  let ?w = "window_after (nat 3) (length ?inp) (accepted 2 ?calls @ [?inp])"
  let ?xss = "[[1, 10], [3, 20], [5, 30 :: real]]"
  have n: "(1::int) \<le> 3" by simp
  have len: "\<forall>c\<in>set ?calls. length (fst c) = length ?inp" by simp
  have sk: "(0::int) < rms_n_skip (RunningMeanStd_init 3 2)"
    by (simp add: RunningMeanStd_init_def)
  have i: "\<not> (4::int) < 2" by simp
  have eq: "accepted 2 ?calls @ [?inp] = map (map Fin) ?xss" by (simp add: accepted_def)
  have up: "[0..<2] = [0, Suc 0]" by (simp add: upt_conv_Cons)
  from RunningMeanStd_run_window [OF n len, of 0 2] sk
  have a: "RunningMeanStd_run (RunningMeanStd_init 3 2) ?inp (Some 0)
       = (Inr (VTuple [VArray (vector (replicate (length ?inp) (Fin 0))),
                       VArray (vector (replicate (length ?inp) (Fin 1)))]),
          RunningMeanStd_init 3 2)"
    by blast
  from RunningMeanStd_run_window [OF n len, of 4 2, unfolded Let_def] i
  have b: "RunningMeanStd_run ?self ?inp (Some 4) =
            (Inr (VTuple [VArray (vector (axis0 np_nanmean (length ?inp) ?w)),
                          VArray (vector (axis0 np_nanstd (length ?inp) ?w))]),
             ?self\<lparr>rms_samples := Some ?w,
                    rms_mean := Some (axis0 np_nanmean (length ?inp) ?w),
                    rms_std := Some (axis0 np_nanstd (length ?inp) ?w)\<rparr>)"
    and c: "\<forall>xss. accepted 2 ?calls @ [?inp] = map (map Fin) xss \<longrightarrow>
              drop (length xss - nat 3) xss \<noteq> []
            \<and> axis0 np_nanmean (length ?inp) ?w
               = map (\<lambda>j. Fin (sum_list (map (\<lambda>xs. xs ! j) (drop (length xss - nat 3) xss))
                               / real (length (drop (length xss - nat 3) xss)))) [0..<length ?inp]
            \<and> axis0 np_nanstd (length ?inp) ?w
               = map (\<lambda>j. Fin (sqrt
                         (sum_list (map (\<lambda>x. (x - sum_list (map (\<lambda>xs. xs ! j) (drop (length xss - nat 3) xss))
                                                    / real (length (drop (length xss - nat 3) xss)))\<^sup>2)
                                      (map (\<lambda>xs. xs ! j) (drop (length xss - nat 3) xss)))
                           / real (length (drop (length xss - nat 3) xss))))) [0..<length ?inp]"
    by blast+
  from c [rule_format, OF eq] have m: "axis0 np_nanmean (length ?inp) ?w = [Fin 3, Fin 20]"
    and s: "axis0 np_nanstd (length ?inp) ?w = [Fin (sqrt (8 / 3)), Fin (sqrt (200 / 3))]"
    by (simp_all add: up)
  have b': "fst (RunningMeanStd_run ?self ?inp (Some 4))
       = Inr (VTuple [VArray (vector [Fin 3, Fin 20]),
                      VArray (vector [Fin (sqrt (8 / 3)), Fin (sqrt (200 / 3))])])"
    unfolding b m s by simp
  have a': "RunningMeanStd_run (RunningMeanStd_init 3 2) ?inp (Some 0)
       = (Inr (VTuple [VArray (vector [Fin 0, Fin 0]), VArray (vector [Fin 1, Fin 1])]),
          RunningMeanStd_init 3 2)"
    unfolding a by (simp add: numeral_2_eq_2)
  show ?thesis
    using n sk i eq a' b' by (intro conjI) simp_all
qed

text \<open>
  Claim C7.  \<open>ZScore.run(array, mean, std)\<close> with \<open>mean\<close> being \<open>None\<close> returns zeros in
  the shape of \<open>array\<close>, whatever \<open>std\<close> is.  Otherwise, for arrays of one shape, it
  returns \<open>(array - mean) / std\<close> element by element, with nothing added to the divisor:
  where \<open>std\<close> is zero the result is an infinity or not-a-number.  In particular
  \<open>ZScore([5], None, None) = [0]\<close> and \<open>ZScore([5], [3], [2]) = [1]\<close>.
\<close>

theorem ZScore_run_elementwise:
  "ZScore_run array None std
     = Inr \<lparr>shape = shape array, data = replicate (prod_list (shape array)) (Fin 0)\<rparr>
   \<and> (wf_array array \<and> wf_array m \<and> wf_array s \<and> shape m = shape array \<and> shape s = shape array
        \<longrightarrow> ZScore_run array (Some m) (Some s)
              = Inr \<lparr>shape = shape array,
                     data = map (\<lambda>(a, m, s). np_div (np_sub a m) s)
                              (zip (data array) (zip (data m) (data s)))\<rparr>
          \<and> (\<forall>z j. ZScore_run array (Some m) (Some s) = Inr z \<and> j < length (data z)
                      \<and> data s ! j = Fin 0 \<longrightarrow> \<not> is_finite (data z ! j)))
   \<and> ZScore_run (vector [Fin 5]) None None = Inr (vector [Fin 0])
   \<and> ZScore_run (vector [Fin 5]) (Some (vector [Fin 3])) (Some (vector [Fin 2]))
       = Inr (vector [Fin 1])"
proof (intro conjI impI)
  show "ZScore_run array None std
     = Inr \<lparr>shape = shape array, data = replicate (prod_list (shape array)) (Fin 0)\<rparr>"
    by (simp add: ZScore_run_def np_zeros_like_def np_size_def)
next
  assume h: "wf_array array \<and> wf_array m \<and> wf_array s \<and> shape m = shape array \<and> shape s = shape array"
  let ?d = "\<lparr>shape = shape array, data = map2 np_sub (data array) (data m)\<rparr>"
  have d: "np_binop np_sub array m = Inr ?d" using h by (simp add: np_binop_same)
  have wd: "wf_array ?d" using h by (simp add: wf_array_def)
  have q: "np_binop np_div ?d s = Inr \<lparr>shape = shape array, data = map2 np_div (data ?d) (data s)\<rparr>"
    using np_binop_same [OF wd, of s np_div] h by simp
  have z: "map2 np_div (map2 np_sub xs ys) zs
             = map (\<lambda>(a, m, s). np_div (np_sub a m) s) (zip xs (zip ys zs))"
    for xs ys zs
  proof (induction xs arbitrary: ys zs)
    case Nil show ?case by simp
  next
    case (Cons x xs) show ?case by (cases ys; cases zs) (simp_all add: Cons.IH)
  qed
  show r: "ZScore_run array (Some m) (Some s)
              = Inr \<lparr>shape = shape array,
                     data = map (\<lambda>(a, m, s). np_div (np_sub a m) s)
                              (zip (data array) (zip (data m) (data s)))\<rparr>"
    by (simp add: ZScore_run_def d q z)
  show "\<forall>z j. ZScore_run array (Some m) (Some s) = Inr z \<and> j < length (data z)
                      \<and> data s ! j = Fin 0 \<longrightarrow> \<not> is_finite (data z ! j)"
    unfolding r by (auto simp: np_div_zero_not_finite)
next
  show "ZScore_run (vector [Fin 5]) None None = Inr (vector [Fin 0])"
    by (simp add: ZScore_run_def np_zeros_like_def np_size_def vector_def)
next
  show "ZScore_run (vector [Fin 5]) (Some (vector [Fin 3])) (Some (vector [Fin 2]))
       = Inr (vector [Fin 1])"
    by (simp add: ZScore_run_def vector_def np_binop_def broadcast_shapes_def broadcast_to_def
          np_sub_def)
qed

theorem ZScore_run_elementwise_witness:
  "wf_array (vector [Fin 5, Fin 3, Fin 1]) \<and> wf_array (vector [Fin 3, Fin 3, Fin 3])
   \<and> wf_array (vector [Fin 2, Fin 0, Fin 0])
   \<and> shape (vector [Fin 3, Fin 3, Fin 3]) = shape (vector [Fin 5, Fin 3, Fin 1])
   \<and> shape (vector [Fin 2, Fin 0, Fin 0]) = shape (vector [Fin 5, Fin 3, Fin 1])
   \<and> ZScore_run (vector [Fin 5, Fin 3, Fin 1]) (Some (vector [Fin 3, Fin 3, Fin 3]))
        (Some (vector [Fin 2, Fin 0, Fin 0])) = Inr (vector [Fin 1, NaN, NInf])
   \<and> \<not> is_finite (data (vector [Fin 1, NaN, NInf]) ! 1)
   \<and> \<not> is_finite (data (vector [Fin 1, NaN, NInf]) ! 2)"
proof -
  have h: "wf_array (vector [Fin 5, Fin 3, Fin 1]) \<and> wf_array (vector [Fin 3, Fin 3, Fin 3])
   \<and> wf_array (vector [Fin 2, Fin 0, Fin 0])
   \<and> shape (vector [Fin 3, Fin 3, Fin 3]) = shape (vector [Fin 5, Fin 3, Fin 1])
   \<and> shape (vector [Fin 2, Fin 0, Fin 0]) = shape (vector [Fin 5, Fin 3, Fin 1])"
    by (simp add: wf_array_def vector_def)
  from ZScore_run_elementwise [where array = "vector [Fin 5, Fin 3, Fin 1]"
      and m = "vector [Fin 3, Fin 3, Fin 3]" and s = "vector [Fin 2, Fin 0, Fin 0]"] h
  have "ZScore_run (vector [Fin 5, Fin 3, Fin 1]) (Some (vector [Fin 3, Fin 3, Fin 3]))
        (Some (vector [Fin 2, Fin 0, Fin 0]))
     = Inr \<lparr>shape = shape (vector [Fin 5, Fin 3, Fin 1]),
            data = map (\<lambda>(a, m, s). np_div (np_sub a m) s)
                     (zip (data (vector [Fin 5, Fin 3, Fin 1]))
                        (zip (data (vector [Fin 3, Fin 3, Fin 3])) (data (vector [Fin 2, Fin 0, Fin 0]))))\<rparr>"
    by blast
  then show ?thesis using h by (simp add: vector_def np_sub_def inf_signed_def)
qed

text \<open>
  Claim C8 says that \<open>ActivityRatio.run\<close> raises no error when \<open>x1 + x2\<close> is zero.  For
  two built-in Python floats it does: \<open>run(1.0, -1.0)\<close> ends in \<open>ZeroDivisionError\<close>.
\<close>

theorem ActivityRatio_run_zero_sum_counterexample:
  "ActivityRatio_run (VFloat (Fin 1)) (VFloat (Fin (- 1))) = Inl ZeroDivisionError"
  by (simp add: ActivityRatio_run_def reduce_array_def)

text \<open>
  Claim C8, amended.  Each array input is first replaced by its mean over the entries
  that are not not-a-number.  When at least one of the two inputs is then a numpy scalar
  (it was an array or a numpy scalar), the result is \<open>x1 / (x1 + x2)\<close> in numpy's
  arithmetic: no error, and a zero sum gives an infinity or not-a-number, returned as it
  is.  When both inputs are built-in Python numbers, a zero sum raises
  \<open>ZeroDivisionError\<close> and any other sum gives the quotient.
\<close>

theorem ActivityRatio_run_ratio:
  assumes "as_float (reduce_array x1) = Some a" and "as_float (reduce_array x2) = Some b"
  shows "(is_numpy (reduce_array x1) \<or> is_numpy (reduce_array x2) \<longrightarrow>
            ActivityRatio_run x1 x2 = Inr (VNpFloat (np_div a (np_add a b)))
          \<and> (np_add a b = Fin 0 \<longrightarrow> \<not> is_finite (np_div a (np_add a b))))
       \<and> (\<not> is_numpy (reduce_array x1) \<and> \<not> is_numpy (reduce_array x2) \<longrightarrow>
            ActivityRatio_run x1 x2 =
              (if np_add a b = Fin 0 then Inl ZeroDivisionError
               else Inr (VFloat (np_div a (np_add a b)))))
       \<and> reduce_array (VArray arr) = VNpFloat (np_nanmean (data arr))
       \<and> ActivityRatio_run (VArray arr) x2 = ActivityRatio_run (VNpFloat (np_nanmean (data arr))) x2
       \<and> ActivityRatio_run x1 (VArray arr) = ActivityRatio_run x1 (VNpFloat (np_nanmean (data arr)))"
  using assms
  by (auto simp: ActivityRatio_run_def reduce_array_def Let_def np_div_zero_not_finite)

theorem ActivityRatio_run_ratio_witness:
  "as_float (reduce_array (VArray (vector [Fin 2, NaN, Fin 4]))) = Some (Fin 3)
   \<and> as_float (reduce_array (VNpFloat (Fin (- 3)))) = Some (Fin (- 3))
   \<and> is_numpy (reduce_array (VArray (vector [Fin 2, NaN, Fin 4])))
   \<and> np_add (Fin 3) (Fin (- 3)) = Fin 0
   \<and> ActivityRatio_run (VArray (vector [Fin 2, NaN, Fin 4])) (VNpFloat (Fin (- 3)))
        = Inr (VNpFloat PInf)
   \<and> ActivityRatio_run (VArray (vector [Fin 2, NaN, Fin 4])) (VInt 1)
        = Inr (VNpFloat (Fin (3 / 4)))"
proof -
  have a: "as_float (reduce_array (VArray (vector [Fin 2, NaN, Fin 4]))) = Some (Fin 3)"
    by (simp add: reduce_array_def vector_def np_nanmean_def np_mean_def np_sum_def)
  have b: "as_float (reduce_array (VNpFloat (Fin (- 3)))) = Some (Fin (- 3))"
    by (simp add: reduce_array_def)
  have c: "as_float (reduce_array (VInt 1)) = Some (Fin 1)"
    by (simp add: reduce_array_def)
  have n: "is_numpy (reduce_array (VArray (vector [Fin 2, NaN, Fin 4])))"
    by (simp add: reduce_array_def)
  have r1: "ActivityRatio_run (VArray (vector [Fin 2, NaN, Fin 4])) (VNpFloat (Fin (- 3)))
      = Inr (VNpFloat (np_div (Fin 3) (np_add (Fin 3) (Fin (- 3)))))"
    using ActivityRatio_run_ratio [OF a b] n by blast
  have r2: "ActivityRatio_run (VArray (vector [Fin 2, NaN, Fin 4])) (VInt 1)
      = Inr (VNpFloat (np_div (Fin 3) (np_add (Fin 3) (Fin 1))))"
    using ActivityRatio_run_ratio [OF a c] n by blast
  show ?thesis
    unfolding r1 r2 using a b n by (simp add: inf_signed_def)
qed

text \<open>
  Claim C10.  \<open>RunningMeanStd.run\<close> called without \<open>image_number\<close> compares the default
  \<open>None\<close> with \<open>n_skip\<close> and fails with a \<open>TypeError\<close>, for every object and every
  input, before anything of the object is touched.
\<close>

theorem RunningMeanStd_run_without_image_number:
  "RunningMeanStd_run self inp None = (Inl TypeError, self)"
  by (simp add: RunningMeanStd_run_def)

end
